theory Spec2Isabelle
  imports Main "HOL-Library.Word" "HOL-Library.Mapping" "HOL-Library.Sublist"
    "HOL-Library.AList_Mapping" "HOL-Library.Multiset"
begin

section \<open>Library types of the Go runtime\<close>

text \<open>
  A \<open>time.Time\<close> is an instant plus a location. The instant is kept as the number of
  nanoseconds since 0001-01-01T00:00:00 UTC (the zero time of Go), the location as the
  offset of the zone in seconds; the offset takes part in formatting only.
\<close>

record Time =
  instant :: int
  zoneOffset :: int

text \<open>A \<open>time.Duration\<close> is an \<open>int64\<close> count of nanoseconds: addition wraps around,
  comparison is signed.\<close>

type_synonym Duration = "64 word"

definition zeroTime :: Time where
  "zeroTime = \<lparr>instant = 0, zoneOffset = 0\<rparr>"

definition IsZero :: "Time \<Rightarrow> bool" where
  "IsZero t = (instant t = 0)"

definition Equal :: "Time \<Rightarrow> Time \<Rightarrow> bool" where
  "Equal t u = (instant t = instant u)"

definition Before :: "Time \<Rightarrow> Time \<Rightarrow> bool" where
  "Before t u = (instant t < instant u)"

definition After :: "Time \<Rightarrow> Time \<Rightarrow> bool" where
  "After t u = (instant t > instant u)"

definition maxDuration :: int where
  "maxDuration = 2 ^ 63 - 1"

definition minDuration :: int where
  "minDuration = - (2 ^ 63)"

text \<open>\<open>t.Sub(u)\<close>: the difference of the instants, and the largest (smallest) duration
  when the difference does not fit into one.\<close>

definition Sub :: "Time \<Rightarrow> Time \<Rightarrow> Duration" where
  "Sub t u = word_of_int (max minDuration (min maxDuration (instant t - instant u)))"

text \<open>Go's integer division truncates towards zero.\<close>

definition quo :: "int \<Rightarrow> int \<Rightarrow> int" where
  "quo a b = (if (a < 0) = (b < 0) then \<bar>a\<bar> div \<bar>b\<bar> else - (\<bar>a\<bar> div \<bar>b\<bar>))"

text \<open>\<open>strings.Contains(s, substr)\<close> on byte strings.\<close>

fun Contains :: "string \<Rightarrow> string \<Rightarrow> bool" where
  "Contains [] substr = (substr = [])"
| "Contains (c # s) substr = (prefix substr (c # s) \<or> Contains s substr)"

text \<open>\<open>strings.ReplaceAll(s, old, new)\<close> for an \<open>old\<close> of one byte.\<close>

definition ReplaceAll :: "string \<Rightarrow> char \<Rightarrow> string \<Rightarrow> string" where
  "ReplaceAll s old new = concat (map (\<lambda>c. if c = old then new else [c]) s)"

text \<open>
  Three library functions are parameters of the model, so that every theorem holds for
  whatever they compute:
  \<^item> \<open>Parse\<close> stands for \<open>time.Parse(time.RFC3339, _)\<close>, with \<open>None\<close> for an error;
  \<^item> \<open>ToLower\<close> stands for \<open>strings.ToLower\<close>;
  \<^item> \<open>Format\<close> stands for \<open>t.Format(time.RFC3339)\<close>.
  \<open>asciiLower\<close> is \<open>strings.ToLower\<close> on ASCII text; it instantiates \<open>ToLower\<close> in examples.
\<close>

definition asciiLower :: "string \<Rightarrow> string" where
  "asciiLower s =
     map (\<lambda>c. case map_of (zip ''ABCDEFGHIJKLMNOPQRSTUVWXYZ'' ''abcdefghijklmnopqrstuvwxyz'') c of
                None \<Rightarrow> c
              | Some l \<Rightarrow> l) s"

section \<open>Data model\<close>

record Station =
  stationID :: string
  stationName :: string
  stationType :: string

record Config =
  LastOrigin :: Station
  LastDest :: Station

record Leg =
  Line :: string
  Type :: string
  Product :: string
  From :: string
  To :: string
  Departure :: Time
  Arrival :: Time
  WaitBefore :: Duration
  DepDelay :: int
  ArrDelay :: int
  Occupancy :: string
  ServiceStatus :: "string list"
  DepPlatform :: string
  ArrPlatform :: string
  Cycle :: int
  LineColor :: string
  TripID :: string

record Journey =
  LeaveAt :: Time
  ArriveAt :: Time
  Duration :: Duration
  TotalWait :: Duration
  Legs :: "Leg list"
  IsNew :: bool

record DelayHistory =
  histLine :: string
  Delays :: "int list"
  Updated :: Time

text \<open>The records of the API response; a nil pointer is \<open>None\<close>.\<close>

record APILocation =
  locID :: string
  locName :: string
  locType :: string

record APILine =
  lineName :: string
  lineProduct :: string
  lineColorFG :: string
  lineColorBG :: string

record APIRemark =
  remarkType :: string
  remarkCode :: string
  remarkText :: string

record APILeg =
  legOrigin :: "APILocation option"
  legDestination :: "APILocation option"
  legDeparture :: string
  legArrival :: string
  legLine :: "APILine option"
  DepartureDelay :: "int option"
  ArrivalDelay :: "int option"
  DeparturePlatform :: string
  PlannedDeparturePlatform :: string
  ArrivalPlatform :: string
  PlannedArrivalPlatform :: string
  Remarks :: "APIRemark list"
  TripId :: string
  CycleMin :: "int option"

record APIJourney =
  apiLegs :: "APILeg list"

record APIJourneysResponse =
  Journeys :: "APIJourney list"

section \<open>Parsing helpers\<close>

definition parseTime :: "(string \<Rightarrow> Time option) \<Rightarrow> string \<Rightarrow> Time option" where
  "parseTime Parse isoString =
     (if isoString = [] then None
      else Parse (ReplaceAll isoString (CHR ''Z'') ''+00:00''))"

fun parseOccupancy :: "(string \<Rightarrow> string) \<Rightarrow> APIRemark list \<Rightarrow> string" where
  "parseOccupancy ToLower [] = ''''"
| "parseOccupancy ToLower (r # remarks) =
     (let code = ToLower (remarkCode r); text = ToLower (remarkText r)
      in if Contains code ''occup'' \<or> Contains text ''occupancy'' then
           (if Contains text ''low'' then ''low''
            else if Contains text ''medium'' \<or> Contains text ''moderate'' then ''medium''
            else if Contains text ''high'' then ''high''
            else parseOccupancy ToLower remarks)
         else parseOccupancy ToLower remarks)"

fun parseServiceStatus :: "APIRemark list \<Rightarrow> string list" where
  "parseServiceStatus [] = []"
| "parseServiceStatus (r # remarks) =
     (if (remarkType r = ''warning'' \<or> remarkType r = ''status'') \<and> remarkText r \<noteq> ''''
      then remarkText r # parseServiceStatus remarks
      else parseServiceStatus remarks)"

section \<open>The journey builder\<close>

text \<open>The body of \<open>fetchJourneys\<close> after the response has been decoded. The construction
  of one \<open>Leg\<close> from a raw leg that has a line and two parsed times:\<close>

definition makeLeg ::
  "(string \<Rightarrow> string) \<Rightarrow> APILeg \<Rightarrow> APILine \<Rightarrow> Time \<Rightarrow> Time \<Rightarrow> Duration \<Rightarrow> Leg" where
  "makeLeg ToLower al ln dep arr wait =
     \<lparr>Line = lineName ln,
      Type = [],
      Product = lineProduct ln,
      From = (case legOrigin al of None \<Rightarrow> [] | Some loc \<Rightarrow> locName loc),
      To = (case legDestination al of None \<Rightarrow> [] | Some loc \<Rightarrow> locName loc),
      Departure = dep,
      Arrival = arr,
      WaitBefore = wait,
      DepDelay = (case DepartureDelay al of None \<Rightarrow> 0 | Some d \<Rightarrow> d),
      ArrDelay = (case ArrivalDelay al of None \<Rightarrow> 0 | Some d \<Rightarrow> d),
      Occupancy = parseOccupancy ToLower (Remarks al),
      ServiceStatus = parseServiceStatus (Remarks al),
      DepPlatform = (if DeparturePlatform al = [] then PlannedDeparturePlatform al
                     else DeparturePlatform al),
      ArrPlatform = (if ArrivalPlatform al = [] then PlannedArrivalPlatform al
                     else ArrivalPlatform al),
      Cycle = (case CycleMin al of None \<Rightarrow> 0 | Some m \<Rightarrow> quo m 60),
      LineColor = lineColorBG ln,
      TripID = TripId al\<rparr>"

text \<open>The loop over the raw legs of one journey; \<open>legs\<close>, \<open>totalWait\<close> and
  \<open>prevArrival\<close> are the loop's variables.\<close>

fun legsLoop ::
  "(string \<Rightarrow> Time option) \<Rightarrow> (string \<Rightarrow> string) \<Rightarrow> APILeg list \<Rightarrow>
   Leg list \<Rightarrow> Duration \<Rightarrow> Time \<Rightarrow> Leg list \<times> Duration" where
  "legsLoop Parse ToLower [] legs totalWait prevArrival = (legs, totalWait)"
| "legsLoop Parse ToLower (al # rest) legs totalWait prevArrival =
     (case legLine al of
        None \<Rightarrow>
          (case parseTime Parse (legArrival al) of
             Some arr \<Rightarrow> legsLoop Parse ToLower rest legs totalWait arr
           | None \<Rightarrow> legsLoop Parse ToLower rest legs totalWait prevArrival)
      | Some ln \<Rightarrow>
          (case parseTime Parse (legDeparture al) of
             None \<Rightarrow> legsLoop Parse ToLower rest legs totalWait prevArrival
           | Some dep \<Rightarrow>
               (case parseTime Parse (legArrival al) of
                  None \<Rightarrow> legsLoop Parse ToLower rest legs totalWait prevArrival
                | Some arr \<Rightarrow>
                    (if \<not> IsZero prevArrival \<and> After dep prevArrival
                     then legsLoop Parse ToLower rest
                            (legs @ [makeLeg ToLower al ln dep arr (Sub dep prevArrival)])
                            (totalWait + Sub dep prevArrival) arr
                     else legsLoop Parse ToLower rest
                            (legs @ [makeLeg ToLower al ln dep arr 0]) totalWait arr))))"

text \<open>The filter test: with a non-empty mapping, a journey is skipped when one of its
  legs has a product that the mapping sends to \<open>false\<close>.\<close>

definition skipJourney :: "(string, bool) mapping \<Rightarrow> Leg list \<Rightarrow> bool" where
  "skipJourney filters legs =
     (\<not> Mapping.is_empty filters \<and>
      list_ex (\<lambda>leg. Mapping.lookup filters (Product leg) = Some False) legs)"

text \<open>The body of the loop over the raw journeys; \<open>None\<close> is a \<open>continue\<close>.\<close>

definition buildJourney ::
  "(string \<Rightarrow> Time option) \<Rightarrow> (string \<Rightarrow> string) \<Rightarrow> (string, bool) mapping \<Rightarrow>
   APIJourney \<Rightarrow> Journey option" where
  "buildJourney Parse ToLower filters aj =
     (case apiLegs aj of
        [] \<Rightarrow> None
      | first # _ \<Rightarrow>
          (case legsLoop Parse ToLower (apiLegs aj) [] 0 zeroTime of
             (legs, totalWait) \<Rightarrow>
               if legs = [] then None
               else if skipJourney filters legs then None
               else
                 (case parseTime Parse (legDeparture first) of
                    None \<Rightarrow> None
                  | Some journeyStart \<Rightarrow>
                      if IsZero journeyStart \<or> IsZero (Arrival (last legs)) then None
                      else Some \<lparr>LeaveAt = journeyStart,
                                 ArriveAt = Arrival (last legs),
                                 Duration = Sub (Arrival (last legs)) journeyStart,
                                 TotalWait = totalWait,
                                 Legs = legs,
                                 IsNew = True\<rparr>)))"

fun journeysLoop ::
  "(string \<Rightarrow> Time option) \<Rightarrow> (string \<Rightarrow> string) \<Rightarrow> (string, bool) mapping \<Rightarrow>
   APIJourney list \<Rightarrow> Journey list" where
  "journeysLoop Parse ToLower filters [] = []"
| "journeysLoop Parse ToLower filters (aj # rest) =
     (case buildJourney Parse ToLower filters aj of
        None \<Rightarrow> journeysLoop Parse ToLower filters rest
      | Some journey \<Rightarrow> journey # journeysLoop Parse ToLower filters rest)"

text \<open>The comparison handed to \<open>sort.Slice\<close>.\<close>

definition journeyLess :: "Journey \<Rightarrow> Journey \<Rightarrow> bool" where
  "journeyLess a b =
     (if Equal (LeaveAt a) (LeaveAt b) then TotalWait a <s TotalWait b
      else Before (LeaveAt a) (LeaveAt b))"

text \<open>
  \<open>sort.Slice\<close> belongs to the Go library: it returns some permutation of the slice that
  is ordered by the comparison, and makes no promise about the order of elements the
  comparison does not separate. The model is an insertion sort; the theorems below use
  of it only that the result is an ordered permutation.
\<close>

fun insertSlice :: "('a \<Rightarrow> 'a \<Rightarrow> bool) \<Rightarrow> 'a \<Rightarrow> 'a list \<Rightarrow> 'a list" where
  "insertSlice lt x [] = [x]"
| "insertSlice lt x (y # ys) =
     (if lt x y then x # y # ys else y # insertSlice lt x ys)"

definition sortSlice :: "('a \<Rightarrow> 'a \<Rightarrow> bool) \<Rightarrow> 'a list \<Rightarrow> 'a list" where
  "sortSlice lt xs = foldr (insertSlice lt) xs []"

definition buildJourneys ::
  "(string \<Rightarrow> Time option) \<Rightarrow> (string \<Rightarrow> string) \<Rightarrow> (string, bool) mapping \<Rightarrow>
   APIJourneysResponse \<Rightarrow> Journey list" where
  "buildJourneys Parse ToLower filters apiResp =
     sortSlice journeyLess (journeysLoop Parse ToLower filters (Journeys apiResp))"

text \<open>
  The network is a parameter: \<open>net originID destID\<close> is what the request, the read of the
  body and the JSON decoding give, an error or the decoded response.
\<close>

datatype error = RequestError | ReadError | DecodeError

definition fetchJourneys ::
  "(string \<Rightarrow> Time option) \<Rightarrow> (string \<Rightarrow> string) \<Rightarrow>
   (string \<Rightarrow> string \<Rightarrow> error + APIJourneysResponse) \<Rightarrow>
   string \<Rightarrow> string \<Rightarrow> (string, bool) mapping \<Rightarrow> error + Journey list" where
  "fetchJourneys Parse ToLower net originID destID filters =
     (case net originID destID of
        Inl err \<Rightarrow> Inl err
      | Inr apiResp \<Rightarrow> Inr (buildJourneys Parse ToLower filters apiResp))"

section \<open>Application state and the refresh cycle\<close>

text \<open>The fields of \<open>App\<close> that a refresh reads or writes. The two maps with boolean
  values are Go maps \<open>map[string]bool\<close>; a key that is absent reads as \<open>false\<close>.\<close>

record App =
  config :: Config
  journeys :: "Journey list"
  prevJourneyIDs :: "string \<rightharpoonup> bool"
  selectedIdx :: int
  lastUpdate :: Time
  isLoading :: bool
  filters :: "(string, bool) mapping"
  refreshPulse :: bool
  newHighlight :: int
  delayHistory :: "string \<rightharpoonup> DelayHistory"

definition lookupBool :: "(string \<rightharpoonup> bool) \<Rightarrow> string \<Rightarrow> bool" where
  "lookupBool m k = (case m k of None \<Rightarrow> False | Some b \<Rightarrow> b)"

text \<open>The identity of a journey, \<open>fmt.Sprintf("%s-%s", LeaveAt.Format(time.RFC3339),
  Legs[0].Line)\<close>. Indexing an empty \<open>Legs\<close> panics: \<open>None\<close>.\<close>

definition journeyID :: "(Time \<Rightarrow> string) \<Rightarrow> Journey \<Rightarrow> string option" where
  "journeyID Format j =
     (case Legs j of
        [] \<Rightarrow> None
      | leg # _ \<Rightarrow> Some (Format (LeaveAt j) @ ''-'' @ Line leg))"

text \<open>The loop that detects new journeys. \<open>newIDs\<close> and \<open>hasNew\<close> are the loop's
  variables; the result is the slice with its \<open>IsNew\<close> flags set, and their final values.\<close>

fun detectLoop ::
  "(Time \<Rightarrow> string) \<Rightarrow> (string \<rightharpoonup> bool) \<Rightarrow> Journey list \<Rightarrow> (string \<rightharpoonup> bool) \<Rightarrow> bool \<Rightarrow>
   (Journey list \<times> (string \<rightharpoonup> bool) \<times> bool) option" where
  "detectLoop Format prev [] newIDs hasNew = Some ([], newIDs, hasNew)"
| "detectLoop Format prev (j # rest) newIDs hasNew =
     (case journeyID Format j of
        None \<Rightarrow> None
      | Some ident \<Rightarrow>
          (if \<not> lookupBool prev ident
           then (case detectLoop Format prev rest (newIDs(ident \<mapsto> True)) True of
                   None \<Rightarrow> None
                 | Some (rest', ids, h) \<Rightarrow> Some (j\<lparr>IsNew := True\<rparr> # rest', ids, h))
           else (case detectLoop Format prev rest (newIDs(ident \<mapsto> True)) hasNew of
                   None \<Rightarrow> None
                 | Some (rest', ids, h) \<Rightarrow> Some (j\<lparr>IsNew := False\<rparr> # rest', ids, h))))"

definition detectNew ::
  "(Time \<Rightarrow> string) \<Rightarrow> (string \<rightharpoonup> bool) \<Rightarrow> Journey list \<Rightarrow>
   (Journey list \<times> (string \<rightharpoonup> bool) \<times> bool) option" where
  "detectNew Format prev js = detectLoop Format prev js Map.empty False"

text \<open>One pass of the body of the delay-history loop, for one leg. \<open>now\<close> is the reading
  of the clock; the readings of one callback are taken to be one.\<close>

definition recordLeg :: "Time \<Rightarrow> (string \<rightharpoonup> DelayHistory) \<Rightarrow> Leg \<Rightarrow> (string \<rightharpoonup> DelayHistory)" where
  "recordLeg now dh leg =
     (if DepDelay leg > 0 then
        (let hist = (case dh (Line leg) of
                       None \<Rightarrow> \<lparr>histLine = Line leg, Delays = [], Updated = zeroTime\<rparr>
                     | Some h \<Rightarrow> h);
             appended = Delays hist @ [quo (DepDelay leg) 60];
             bounded = (if length appended > 20
                        then drop (length appended - 20) appended else appended)
         in dh(Line leg \<mapsto> hist\<lparr>Delays := bounded, Updated := now\<rparr>))
      else dh)"

definition recordDelays ::
  "Time \<Rightarrow> Journey list \<Rightarrow> (string \<rightharpoonup> DelayHistory) \<Rightarrow> (string \<rightharpoonup> DelayHistory)" where
  "recordDelays now js dh = foldl (\<lambda>dh j. foldl (recordLeg now) dh (Legs j)) dh js"

text \<open>
  \<open>refresh\<close> sets two flags, fetches on a goroutine and queues a callback that applies the
  result. The model runs the three steps one after the other: \<open>refreshBegin\<close>, the fetch,
  \<open>refreshApply\<close> (the callback). \<open>None\<close> is a panic of the callback. The goroutine that
  resets \<open>refreshPulse\<close> half a second later is not part of the model.
\<close>

definition refreshBegin :: "App \<Rightarrow> App" where
  "refreshBegin a = a\<lparr>isLoading := True, refreshPulse := True\<rparr>"

definition refreshApply ::
  "(Time \<Rightarrow> string) \<Rightarrow> Time \<Rightarrow> error + Journey list \<Rightarrow> App \<Rightarrow> App option" where
  "refreshApply Format now result a =
     (case (case result of
              Inl err \<Rightarrow> Some (a\<lparr>journeys := []\<rparr>)
            | Inr fetched \<Rightarrow>
                (case detectNew Format (prevJourneyIDs a) fetched of
                   None \<Rightarrow> None
                 | Some (js, newIDs, hasNew) \<Rightarrow>
                     Some (a\<lparr>prevJourneyIDs := newIDs,
                             newHighlight := (if hasNew then 30 else newHighlight a),
                             delayHistory := recordDelays now js (delayHistory a),
                             journeys := js\<rparr>))) of
        None \<Rightarrow> None
      | Some a' \<Rightarrow> Some (a'\<lparr>lastUpdate := now, selectedIdx := 0, isLoading := False\<rparr>))"

definition refresh ::
  "(string \<Rightarrow> Time option) \<Rightarrow> (string \<Rightarrow> string) \<Rightarrow> (Time \<Rightarrow> string) \<Rightarrow>
   (string \<Rightarrow> string \<Rightarrow> error + APIJourneysResponse) \<Rightarrow> Time \<Rightarrow> App \<Rightarrow> App option" where
  "refresh Parse ToLower Format net now a =
     refreshApply Format now
       (fetchJourneys Parse ToLower net
          (stationID (LastOrigin (config a))) (stationID (LastDest (config a))) Mapping.empty)
       (refreshBegin a)"

text \<open>The filter mapping that \<open>NewApp\<close> stores in the \<open>filters\<close> field.\<close>

definition initialFilters :: "(string, bool) mapping" where
  "initialFilters =
     foldl (\<lambda>m p. Mapping.update p True m) Mapping.empty
       [''suburban'', ''subway'', ''tram'', ''bus'', ''ferry'', ''regional'', ''express'']"

section \<open>Notions of the specification\<close>

subsection \<open>Occupancy\<close>

text \<open>A remark is about occupancy when its code mentions \<open>occup\<close> or its text mentions
  \<open>occupancy\<close>; the keywords of a level are looked for in the text, \<open>low\<close> before
  \<open>medium\<close> (or \<open>moderate\<close>) before \<open>high\<close>. A remark matches when it is about occupancy
  and holds a keyword.\<close>

definition occupancyRemark :: "(string \<Rightarrow> string) \<Rightarrow> APIRemark \<Rightarrow> bool" where
  "occupancyRemark ToLower r =
     (Contains (ToLower (remarkCode r)) ''occup'' \<or> Contains (ToLower (remarkText r)) ''occupancy'')"

definition keywordLevel :: "string \<Rightarrow> string option" where
  "keywordLevel text =
     (if Contains text ''low'' then Some ''low''
      else if Contains text ''medium'' \<or> Contains text ''moderate'' then Some ''medium''
      else if Contains text ''high'' then Some ''high''
      else None)"

definition remarkLevel :: "(string \<Rightarrow> string) \<Rightarrow> APIRemark \<Rightarrow> string option" where
  "remarkLevel ToLower r =
     (if occupancyRemark ToLower r then keywordLevel (ToLower (remarkText r)) else None)"

text \<open>First match wins: the level of the first remark that matches, and no level when
  none does.\<close>

definition firstMatch :: "(string \<Rightarrow> string) \<Rightarrow> APIRemark list \<Rightarrow> string" where
  "firstMatch ToLower remarks =
     (case List.map_filter (remarkLevel ToLower) remarks of [] \<Rightarrow> '''' | level # _ \<Rightarrow> level)"

text \<open>Two remarks that differ in the case of their letters only.\<close>

definition sameUpToCase :: "(string \<Rightarrow> string) \<Rightarrow> APIRemark \<Rightarrow> APIRemark \<Rightarrow> bool" where
  "sameUpToCase ToLower r r' =
     (ToLower (remarkCode r) = ToLower (remarkCode r') \<and>
      ToLower (remarkText r) = ToLower (remarkText r'))"

subsection \<open>Ordering\<close>

text \<open>Ascending by the instant of departure, ties broken by ascending total wait.\<close>

definition departOrder :: "Journey \<Rightarrow> Journey \<Rightarrow> bool" where
  "departOrder a b =
     (instant (LeaveAt a) < instant (LeaveAt b) \<or>
      (instant (LeaveAt a) = instant (LeaveAt b) \<and> TotalWait a \<le>s TotalWait b))"

subsection \<open>Waiting times\<close>

text \<open>
  The arrival that a raw leg hands on as the reference for the next leg: a transfer or
  walk (a raw leg without a line) hands on its arrival when it parses, a leg that is built
  hands on its arrival, and a leg that is dropped hands on nothing.
\<close>

definition arrivalOf :: "(string \<Rightarrow> Time option) \<Rightarrow> APILeg \<Rightarrow> Time option" where
  "arrivalOf Parse al =
     (case legLine al of
        None \<Rightarrow> parseTime Parse (legArrival al)
      | Some ln \<Rightarrow>
          (case parseTime Parse (legDeparture al) of
             None \<Rightarrow> None
           | Some dep \<Rightarrow> parseTime Parse (legArrival al)))"

text \<open>The previous-arrival reference of a raw leg, given the raw legs \<open>before\<close> it in the
  journey: the last arrival handed on, and the zero time (absent) when there is none, as
  for the first raw leg.\<close>

definition previousArrival :: "(string \<Rightarrow> Time option) \<Rightarrow> APILeg list \<Rightarrow> Time" where
  "previousArrival Parse before =
     (case rev (List.map_filter (arrivalOf Parse) before) of [] \<Rightarrow> zeroTime | arr # _ \<Rightarrow> arr)"

text \<open>\<open>max(0, d)\<close> on signed durations, and the wait before a departure.\<close>

definition maxDuration0 :: "Duration \<Rightarrow> Duration" where
  "maxDuration0 d = (if 0 <s d then d else 0)"

definition waitBefore :: "Time \<Rightarrow> Time \<Rightarrow> Duration" where
  "waitBefore prev dep = (if IsZero prev then 0 else maxDuration0 (Sub dep prev))"

text \<open>The leg built from a raw leg with a line and two times that parse, and the legs
  built from the raw legs of a journey, in their order.\<close>

definition builtLeg ::
  "(string \<Rightarrow> Time option) \<Rightarrow> (string \<Rightarrow> string) \<Rightarrow> APILeg list \<Rightarrow> APILeg \<Rightarrow> Leg option" where
  "builtLeg Parse ToLower before al =
     (case legLine al of
        None \<Rightarrow> None
      | Some ln \<Rightarrow>
          (case parseTime Parse (legDeparture al) of
             None \<Rightarrow> None
           | Some dep \<Rightarrow>
               (case parseTime Parse (legArrival al) of
                  None \<Rightarrow> None
                | Some arr \<Rightarrow>
                    Some (makeLeg ToLower al ln dep arr
                            (waitBefore (previousArrival Parse before) dep)))))"

definition builtLegs ::
  "(string \<Rightarrow> Time option) \<Rightarrow> (string \<Rightarrow> string) \<Rightarrow> APILeg list \<Rightarrow> Leg list" where
  "builtLegs Parse ToLower raw =
     List.map_filter (\<lambda>i. builtLeg Parse ToLower (take i raw) (raw ! i)) [0..<length raw]"

subsection \<open>Chronological input\<close>

text \<open>A raw journey is chronological when the departure of its first raw leg is not later
  than any arrival among its raw legs (times that do not parse are left out).\<close>

definition chronological :: "(string \<Rightarrow> Time option) \<Rightarrow> APIJourney \<Rightarrow> bool" where
  "chronological Parse aj =
     (case apiLegs aj of
        [] \<Rightarrow> True
      | first # _ \<Rightarrow>
          (case parseTime Parse (legDeparture first) of
             None \<Rightarrow> True
           | Some start \<Rightarrow>
               list_all (\<lambda>al. case parseTime Parse (legArrival al) of
                                 None \<Rightarrow> True
                               | Some arr \<Rightarrow> instant start \<le> instant arr) (apiLegs aj)))"

subsection \<open>Delay history\<close>

text \<open>The samples of a line, none for a line without an entry; and a sequence of record
  operations, each with the reading of the clock and the journeys of its cycle.\<close>

definition delaysOf :: "(string \<rightharpoonup> DelayHistory) \<Rightarrow> string \<Rightarrow> int list" where
  "delaysOf dh line = (case dh line of None \<Rightarrow> [] | Some h \<Rightarrow> Delays h)"

definition recordAll ::
  "(Time \<times> Journey list) list \<Rightarrow> (string \<rightharpoonup> DelayHistory) \<Rightarrow> (string \<rightharpoonup> DelayHistory)" where
  "recordAll cycles dh = foldl (\<lambda>dh c. recordDelays (fst c) (snd c) dh) dh cycles"

subsection \<open>Novelty\<close>

text \<open>The identity of a journey that has a leg: the formatted departure and the line of
  the first leg.\<close>

definition identity :: "(Time \<Rightarrow> string) \<Rightarrow> Journey \<Rightarrow> string" where
  "identity Format j = Format (LeaveAt j) @ ''-'' @ Line (hd (Legs j))"

section \<open>Concrete inputs\<close>

definition remarkFloor :: APIRemark where
  "remarkFloor = \<lparr>remarkType = ''hint'', remarkCode = ''bf'', remarkText = ''Low-floor vehicle''\<rparr>"

definition remarkBoth :: APIRemark where
  "remarkBoth = \<lparr>remarkType = ''hint'', remarkCode = ''OCCUP'', remarkText = ''HIGH, not low''\<rparr>"

definition remarkBoth' :: APIRemark where
  "remarkBoth' = \<lparr>remarkType = ''status'', remarkCode = ''occup'', remarkText = ''high, NOT LOW''\<rparr>"

definition remarkModerate :: APIRemark where
  "remarkModerate =
     \<lparr>remarkType = ''hint'', remarkCode = ''x'', remarkText = ''Occupancy: Moderate to HIGH''\<rparr>"

definition remarkHigh :: APIRemark where
  "remarkHigh = \<lparr>remarkType = ''hint'', remarkCode = ''occup-3'', remarkText = ''Very High''\<rparr>"

definition remarkFull :: APIRemark where
  "remarkFull = \<lparr>remarkType = ''hint'', remarkCode = ''occup'', remarkText = ''Full''\<rparr>"

text \<open>Times of 1 May 2024 in Berlin (UTC+2), as instants in nanoseconds, and the RFC 3339
  strings that \<open>exParse\<close> reads and \<open>exFormat\<close> writes.\<close>

definition berlin :: "int \<Rightarrow> Time" where
  "berlin ns = \<lparr>instant = ns, zoneOffset = 7200\<rparr>"

definition at0800 :: Time where "at0800 = berlin 63850140000000000000"
definition at0805 :: Time where "at0805 = berlin 63850140300000000000"
definition at0810 :: Time where "at0810 = berlin 63850140600000000000"
definition at0830 :: Time where "at0830 = berlin 63850141800000000000"
definition at0833 :: Time where "at0833 = berlin 63850141980000000000"
definition at0840 :: Time where "at0840 = berlin 63850142400000000000"
definition at0855 :: Time where "at0855 = berlin 63850143300000000000"

definition exTimes :: "(string \<times> Time) list" where
  "exTimes =
     [(''2024-05-01T08:00:00+02:00'', at0800),
      (''2024-05-01T08:05:00+02:00'', at0805),
      (''2024-05-01T08:10:00+02:00'', at0810),
      (''2024-05-01T08:30:00+02:00'', at0830),
      (''2024-05-01T08:33:00+02:00'', at0833),
      (''2024-05-01T08:40:00+02:00'', at0840),
      (''2024-05-01T08:55:00+02:00'', at0855)]"

definition exParse :: "string \<Rightarrow> Time option" where
  "exParse = map_of exTimes"

definition exFormat :: "Time \<Rightarrow> string" where
  "exFormat t = (case map_of (map (\<lambda>(s, t). (t, s)) exTimes) t of None \<Rightarrow> ''?'' | Some s \<Rightarrow> s)"

definition walkLeg :: "string \<Rightarrow> string \<Rightarrow> APILeg" where
  "walkLeg dep arr =
     \<lparr>legOrigin = None, legDestination = None, legDeparture = dep, legArrival = arr,
      legLine = None, DepartureDelay = None, ArrivalDelay = None,
      DeparturePlatform = [], PlannedDeparturePlatform = [],
      ArrivalPlatform = [], PlannedArrivalPlatform = [],
      Remarks = [], TripId = [], CycleMin = None\<rparr>"

definition lineLeg :: "string \<Rightarrow> string \<Rightarrow> string \<Rightarrow> string \<Rightarrow> int \<Rightarrow> APILeg" where
  "lineLeg name product dep arr delay =
     (walkLeg dep arr)
       \<lparr>legLine := Some \<lparr>lineName = name, lineProduct = product,
                          lineColorFG = [], lineColorBG = []\<rparr>,
        DepartureDelay := Some delay\<rparr>"

text \<open>A journey that starts with a walk: walk 08:00--08:05, S3 08:10--08:30, transfer
  08:30--08:33, U8 08:40--08:55 (two minutes late).\<close>

definition journeyWalkFirst :: APIJourney where
  "journeyWalkFirst =
     \<lparr>apiLegs =
        [walkLeg ''2024-05-01T08:00:00+02:00'' ''2024-05-01T08:05:00+02:00'',
         lineLeg ''S3'' ''suburban'' ''2024-05-01T08:10:00+02:00'' ''2024-05-01T08:30:00+02:00'' 0,
         walkLeg ''2024-05-01T08:30:00+02:00'' ''2024-05-01T08:33:00+02:00'',
         lineLeg ''U8'' ''subway'' ''2024-05-01T08:40:00+02:00'' ''2024-05-01T08:55:00+02:00'' 120]\<rparr>"

text \<open>A journey of one leg whose arrival is earlier than its departure.\<close>

definition journeyBackwards :: APIJourney where
  "journeyBackwards =
     \<lparr>apiLegs =
        [lineLeg ''M10'' ''tram'' ''2024-05-01T08:40:00+02:00'' ''2024-05-01T08:10:00+02:00'' 0]\<rparr>"

text \<open>A journey of one bus leg, 08:05--08:30, one minute late.\<close>

definition journeyBus :: APIJourney where
  "journeyBus =
     \<lparr>apiLegs =
        [lineLeg ''142'' ''bus'' ''2024-05-01T08:05:00+02:00'' ''2024-05-01T08:30:00+02:00'' 60]\<rparr>"

definition noFilters :: "(string, bool) mapping" where
  "noFilters = Mapping.empty"

definition noBus :: "(string, bool) mapping" where
  "noBus = Mapping.update ''bus'' False Mapping.empty"

text \<open>A direct journey, RE1 08:00--08:40, and the journeys that the builder makes of the
  raw journeys above.\<close>

definition journeyDirect :: APIJourney where
  "journeyDirect =
     \<lparr>apiLegs =
        [lineLeg ''RE1'' ''regional'' ''2024-05-01T08:00:00+02:00'' ''2024-05-01T08:40:00+02:00'' 0]\<rparr>"

definition exLeg :: "string \<Rightarrow> string \<Rightarrow> Time \<Rightarrow> Time \<Rightarrow> Duration \<Rightarrow> int \<Rightarrow> Leg" where
  "exLeg name product dep arr wait delay =
     \<lparr>Line = name, Type = [], Product = product, From = [], To = [],
      Departure = dep, Arrival = arr, WaitBefore = wait, DepDelay = delay, ArrDelay = 0,
      Occupancy = [], ServiceStatus = [], DepPlatform = [], ArrPlatform = [], Cycle = 0,
      LineColor = [], TripID = []\<rparr>"

definition builtWalkFirst :: Journey where
  "builtWalkFirst =
     \<lparr>LeaveAt = at0800, ArriveAt = at0855, Duration = 3300000000000,
      TotalWait = 720000000000,
      Legs = [exLeg ''S3'' ''suburban'' at0810 at0830 300000000000 0,
              exLeg ''U8'' ''subway'' at0840 at0855 420000000000 120],
      IsNew = True\<rparr>"

definition builtBackwards :: Journey where
  "builtBackwards =
     \<lparr>LeaveAt = at0840, ArriveAt = at0810, Duration = - 1800000000000, TotalWait = 0,
      Legs = [exLeg ''M10'' ''tram'' at0840 at0810 0 0], IsNew = True\<rparr>"

definition builtBus :: Journey where
  "builtBus =
     \<lparr>LeaveAt = at0805, ArriveAt = at0830, Duration = 1500000000000, TotalWait = 0,
      Legs = [exLeg ''142'' ''bus'' at0805 at0830 0 60], IsNew = True\<rparr>"

definition builtDirect :: Journey where
  "builtDirect =
     \<lparr>LeaveAt = at0800, ArriveAt = at0840, Duration = 2400000000000, TotalWait = 0,
      Legs = [exLeg ''RE1'' ''regional'' at0800 at0840 0 0], IsNew = True\<rparr>"

definition exResponse :: APIJourneysResponse where
  "exResponse = \<lparr>Journeys = [journeyBus, journeyWalkFirst, journeyDirect]\<rparr>"

text \<open>A history with twenty samples for the S3, and a late S3 leg (three minutes).\<close>

definition fullHistory :: "string \<rightharpoonup> DelayHistory" where
  "fullHistory =
     [''S3'' \<mapsto> \<lparr>histLine = ''S3'',
                 Delays = [1, 2, 3, 4, 5, 6, 7, 8, 9, 10, 11, 12, 13, 14, 15, 16, 17, 18, 19, 20],
                 Updated = at0800\<rparr>]"

definition lateS3 :: Leg where
  "lateS3 = exLeg ''S3'' ''suburban'' at0810 at0830 0 180"

text \<open>The identities of the previous cycle: the direct journey was there already.\<close>

definition seenDirect :: "string \<rightharpoonup> bool" where
  "seenDirect = [''2024-05-01T08:00:00+02:00-RE1'' \<mapsto> True]"

text \<open>An application that shows the bus journey of the last successful cycle, with the
  bus disabled in its \<open>filters\<close> field; a network that fails and one that answers.\<close>

definition exApp :: App where
  "exApp =
     \<lparr>config = \<lparr>LastOrigin = \<lparr>stationID = ''900180001'', stationName = ''S Koepenick (Berlin)'',
                               stationType = []\<rparr>,
                 LastDest = \<lparr>stationID = ''900100041'',
                             stationName = ''Brunnenstr./Invalidenstr. (Berlin)'',
                             stationType = []\<rparr>\<rparr>,
      journeys = [builtBus\<lparr>IsNew := False\<rparr>],
      prevJourneyIDs = [''2024-05-01T08:05:00+02:00-142'' \<mapsto> True],
      selectedIdx = 0,
      lastUpdate = at0800,
      isLoading = False,
      filters = noBus,
      refreshPulse = False,
      newHighlight = 0,
      delayHistory = Map.empty\<rparr>"

definition netDown :: "string \<Rightarrow> string \<Rightarrow> error + APIJourneysResponse" where
  "netDown originID destID = Inl RequestError"

definition netUp :: "string \<Rightarrow> string \<Rightarrow> error + APIJourneysResponse" where
  "netUp originID destID = Inr \<lparr>Journeys = [journeyBus]\<rparr>"

section \<open>Facts about the library model and the loops\<close>

lemma set_insertSlice: "set (insertSlice lt x ys) = insert x (set ys)"
  by (induction ys) auto

lemma set_sortSlice: "set (sortSlice lt xs) = set xs"
  by (induction xs) (simp_all add: sortSlice_def set_insertSlice)

lemma mset_insertSlice: "mset (insertSlice lt x ys) = add_mset x (mset ys)"
  by (induction ys) auto

lemma mset_sortSlice: "mset (sortSlice lt xs) = mset xs"
  by (induction xs) (simp_all add: sortSlice_def mset_insertSlice)

lemma departOrder_trans: "departOrder a b \<Longrightarrow> departOrder b c \<Longrightarrow> departOrder a c"
  by (auto simp: departOrder_def word_sle_eq)

lemma journeyLess_departOrder: "journeyLess a b \<Longrightarrow> departOrder a b"
  by (auto simp: journeyLess_def departOrder_def Equal_def Before_def word_sle_eq word_sless_alt
      split: if_splits)

lemma not_journeyLess_departOrder: "\<not> journeyLess a b \<Longrightarrow> departOrder b a"
  by (auto simp: journeyLess_def departOrder_def Equal_def Before_def word_sle_eq word_sless_alt
      split: if_splits)

lemma sorted_insertSlice:
  "sorted_wrt departOrder ys \<Longrightarrow> sorted_wrt departOrder (insertSlice journeyLess x ys)"
proof (induction ys)
  case Nil
  then show ?case by simp
next
  case (Cons y ys)
  show ?case
  proof (cases "journeyLess x y")
    case True
    then have xy: "departOrder x y" by (rule journeyLess_departOrder)
    have "\<forall>z\<in>set ys. departOrder x z"
      using Cons.prems xy by (auto intro: departOrder_trans)
    with True xy Cons.prems show ?thesis by simp
  next
    case False
    then have "departOrder y x" by (rule not_journeyLess_departOrder)
    with False Cons show ?thesis by (auto simp: set_insertSlice)
  qed
qed

lemma sorted_sortSlice: "sorted_wrt departOrder (sortSlice journeyLess xs)"
proof (induction xs)
  case Nil
  then show ?case by (simp add: sortSlice_def)
next
  case (Cons x xs)
  then show ?case using sorted_insertSlice [of "sortSlice journeyLess xs" x]
    by (simp add: sortSlice_def)
qed

lemma journeysLoop_map_filter:
  "journeysLoop Parse ToLower filt ajs = List.map_filter (buildJourney Parse ToLower filt) ajs"
  by (induction ajs) (simp_all split: option.split)

lemma in_journeysLoop:
  "j \<in> set (journeysLoop Parse ToLower filt ajs) \<longleftrightarrow>
   (\<exists>aj\<in>set ajs. buildJourney Parse ToLower filt aj = Some j)"
  by (induction ajs) (auto split: option.splits)

lemma in_buildJourneys:
  "j \<in> set (buildJourneys Parse ToLower filt apiResp) \<longleftrightarrow>
   (\<exists>aj\<in>set (Journeys apiResp). buildJourney Parse ToLower filt aj = Some j)"
  by (simp add: buildJourneys_def set_sortSlice in_journeysLoop)

lemma sint_Sub:
  "sint (Sub t u) = max minDuration (min maxDuration (instant t - instant u))"
  unfolding Sub_def sint_sbintrunc'
  by (rule signed_take_bit_int_eq_self) (simp_all add: minDuration_def maxDuration_def)

lemma Sub_pos_iff: "0 <s Sub t u \<longleftrightarrow> After t u"
  by (auto simp: word_sless_alt sint_Sub After_def minDuration_def maxDuration_def max_def min_def)

lemma waitBefore_code:
  "waitBefore prev dep = (if \<not> IsZero prev \<and> After dep prev then Sub dep prev else 0)"
  by (simp add: waitBefore_def maxDuration0_def Sub_pos_iff)

lemma previousArrival_snoc:
  "previousArrival Parse (before @ [al]) =
     (case arrivalOf Parse al of None \<Rightarrow> previousArrival Parse before | Some arr \<Rightarrow> arr)"
  by (simp add: previousArrival_def List.map_filter_def split: option.split)

lemma map_filter_map: "List.map_filter f (map g xs) = List.map_filter (\<lambda>x. f (g x)) xs"
  by (induction xs) (simp_all split: option.split)

lemma map_filter_upt_Suc:
  "List.map_filter f [0..<Suc n] =
     (case f 0 of None \<Rightarrow> List.map_filter (\<lambda>i. f (Suc i)) [0..<n]
                | Some y \<Rightarrow> y # List.map_filter (\<lambda>i. f (Suc i)) [0..<n])"
proof -
  have "[0..<Suc n] = 0 # map Suc [0..<n]"
    by (simp add: upt_conv_Cons map_Suc_upt del: upt_Suc)
  then show ?thesis
    by (simp only: List.map_filter_simps map_filter_map)
qed

lemma legsLoop_spec:
  "legsLoop Parse ToLower raw legs totalWait (previousArrival Parse before) =
     (legs @ List.map_filter (\<lambda>i. builtLeg Parse ToLower (before @ take i raw) (raw ! i))
               [0..<length raw],
      totalWait + sum_list (map WaitBefore
        (List.map_filter (\<lambda>i. builtLeg Parse ToLower (before @ take i raw) (raw ! i))
               [0..<length raw])))"
proof (induction raw arbitrary: legs totalWait before)
  case Nil
  then show ?case by simp
next
  case (Cons al rest)
  let ?f = "\<lambda>i. builtLeg Parse ToLower (before @ take i (al # rest)) ((al # rest) ! i)"
  let ?g = "\<lambda>i. builtLeg Parse ToLower ((before @ [al]) @ take i rest) (rest ! i)"
  have shift: "(\<lambda>i. ?f (Suc i)) = ?g"
    by simp
  have f0: "?f 0 = builtLeg Parse ToLower before al"
    by simp
  have unfold: "List.map_filter ?f [0..<length (al # rest)] =
      (case builtLeg Parse ToLower before al of
         None \<Rightarrow> List.map_filter ?g [0..<length rest]
       | Some leg \<Rightarrow> leg # List.map_filter ?g [0..<length rest])"
    unfolding length_Cons map_filter_upt_Suc [of ?f] shift f0 ..
  note IH = Cons.IH [of _ _ "before @ [al]"]
  show ?case
  proof (cases "builtLeg Parse ToLower before al")
    case None
    then have prev: "legsLoop Parse ToLower (al # rest) legs totalWait (previousArrival Parse before) =
        legsLoop Parse ToLower rest legs totalWait (previousArrival Parse (before @ [al]))"
      by (auto simp: builtLeg_def previousArrival_snoc arrivalOf_def split: option.splits)
    show ?thesis
      unfolding unfold prev IH using None by simp
  next
    case (Some leg)
    then obtain ln dep arr where parts: "legLine al = Some ln"
        "parseTime Parse (legDeparture al) = Some dep" "parseTime Parse (legArrival al) = Some arr"
        "leg = makeLeg ToLower al ln dep arr (waitBefore (previousArrival Parse before) dep)"
      by (auto simp: builtLeg_def split: option.splits)
    have wb: "WaitBefore leg = waitBefore (previousArrival Parse before) dep"
      by (simp add: parts(4) makeLeg_def)
    have prev: "legsLoop Parse ToLower (al # rest) legs totalWait (previousArrival Parse before) =
        legsLoop Parse ToLower rest (legs @ [leg]) (totalWait + WaitBefore leg)
          (previousArrival Parse (before @ [al]))"
      unfolding wb
      by (simp add: parts previousArrival_snoc arrivalOf_def waitBefore_code)
    show ?thesis
      unfolding unfold prev IH using Some by (simp add: add.assoc)
  qed
qed

lemma previousArrival_Nil: "previousArrival Parse [] = zeroTime"
  by (simp add: previousArrival_def)

lemma legsLoop_builtLegs:
  "legsLoop Parse ToLower raw [] 0 zeroTime =
     (builtLegs Parse ToLower raw, sum_list (map WaitBefore (builtLegs Parse ToLower raw)))"
  using legsLoop_spec [of Parse ToLower raw "[]" 0 "[]"]
  by (simp add: previousArrival_Nil builtLegs_def)

lemma buildJourney_Some:
  assumes "buildJourney Parse ToLower filt aj = Some j"
  shows "apiLegs aj \<noteq> []"
    and "Legs j = builtLegs Parse ToLower (apiLegs aj)"
    and "Legs j \<noteq> []"
    and "\<not> skipJourney filt (Legs j)"
    and "parseTime Parse (legDeparture (hd (apiLegs aj))) = Some (LeaveAt j)"
    and "ArriveAt j = Arrival (last (Legs j))"
    and "Duration j = Sub (ArriveAt j) (LeaveAt j)"
    and "TotalWait j = sum_list (map WaitBefore (Legs j))"
    and "\<not> IsZero (LeaveAt j)"
    and "\<not> IsZero (ArriveAt j)"
  using assms
  by (auto simp: buildJourney_def legsLoop_builtLegs split: list.splits option.splits if_splits)

lemma in_map_filter: "y \<in> set (List.map_filter f xs) \<longleftrightarrow> (\<exists>x\<in>set xs. f x = Some y)"
  by (induction xs) (auto split: option.splits)

lemma in_builtLegs:
  "leg \<in> set (builtLegs Parse ToLower raw) \<longleftrightarrow>
   (\<exists>i<length raw. builtLeg Parse ToLower (take i raw) (raw ! i) = Some leg)"
  by (auto simp: builtLegs_def in_map_filter)

lemma builtLeg_Arrival:
  "builtLeg Parse ToLower before al = Some leg \<Longrightarrow>
   parseTime Parse (legArrival al) = Some (Arrival leg)"
  by (auto simp: builtLeg_def makeLeg_def split: option.splits)

lemma builtLeg_Departure:
  "builtLeg Parse ToLower before al = Some leg \<Longrightarrow>
   parseTime Parse (legDeparture al) = Some (Departure leg)"
  by (auto simp: builtLeg_def makeLeg_def split: option.splits)

lemma builtLegs_hd:
  "raw \<noteq> [] \<Longrightarrow> builtLeg Parse ToLower [] (hd raw) = Some leg \<Longrightarrow>
   hd (builtLegs Parse ToLower raw) = leg"
  by (cases raw) (simp_all add: builtLegs_def map_filter_upt_Suc del: upt_Suc)

lemma chronological_arrival:
  assumes "chronological Parse aj" and "apiLegs aj \<noteq> []"
    and "parseTime Parse (legDeparture (hd (apiLegs aj))) = Some start"
    and "al \<in> set (apiLegs aj)" and "parseTime Parse (legArrival al) = Some arr"
  shows "instant start \<le> instant arr"
  using assms
  by (auto simp: chronological_def list_all_iff split: list.splits option.splits)

lemma sint_maxDuration0: "sint (maxDuration0 d) = max 0 (sint d)"
  by (simp add: maxDuration0_def word_sless_alt max_def)

subsection \<open>Unfolding the model on concrete inputs\<close>

lemmas example_defs = journeyWalkFirst_def journeyBackwards_def journeyBus_def journeyDirect_def
  walkLeg_def lineLeg_def exParse_def exTimes_def at0800_def at0805_def at0810_def at0830_def
  at0833_def at0840_def at0855_def berlin_def noFilters_def noBus_def exLeg_def
  builtWalkFirst_def builtBackwards_def builtBus_def builtDirect_def exResponse_def

lemmas builder_defs = buildJourneys_def sortSlice_def buildJourney_def parseTime_def
  ReplaceAll_def IsZero_def After_def Before_def Equal_def Sub_def zeroTime_def makeLeg_def
  skipJourney_def minDuration_def maxDuration_def journeyLess_def word_sless_alt

lemma build_walkFirst:
  "buildJourneys exParse asciiLower noFilters \<lparr>Journeys = [journeyWalkFirst]\<rparr> = [builtWalkFirst]"
  by (simp add: builder_defs example_defs)

lemma build_backwards:
  "buildJourneys exParse asciiLower noFilters \<lparr>Journeys = [journeyBackwards]\<rparr> = [builtBackwards]"
  by (simp add: builder_defs example_defs)

lemma build_bus:
  "buildJourneys exParse asciiLower noFilters \<lparr>Journeys = [journeyBus]\<rparr> = [builtBus]"
  by (simp add: builder_defs example_defs)

lemma build_exResponse:
  "buildJourneys exParse asciiLower noFilters exResponse = [builtDirect, builtWalkFirst, builtBus]"
  by (simp add: builder_defs example_defs)

lemma build_exResponse_noBus:
  "buildJourneys exParse asciiLower noBus exResponse = [builtDirect, builtWalkFirst]"
  by (simp add: builder_defs example_defs Mapping.lookup_update')

lemma build_exResponse_bus:
  "buildJourneys exParse asciiLower (Mapping.update ''bus'' True noBus) exResponse =
     [builtDirect, builtWalkFirst, builtBus]"
  by (simp add: builder_defs example_defs Mapping.lookup_update')

subsection \<open>Detection and refresh\<close>

lemma journeyID_identity: "Legs j \<noteq> [] \<Longrightarrow> journeyID Format j = Some (identity Format j)"
  by (cases "Legs j") (simp_all add: journeyID_def identity_def)

lemma detectLoop_result:
  "list_all (\<lambda>j. Legs j \<noteq> []) js \<Longrightarrow>
   detectLoop Format prev js newIDs hasNew =
     Some (map (\<lambda>j. j\<lparr>IsNew := \<not> lookupBool prev (identity Format j)\<rparr>) js,
           (\<lambda>k. if k \<in> identity Format ` set js then Some True else newIDs k),
           hasNew \<or> list_ex (\<lambda>j. \<not> lookupBool prev (identity Format j)) js)"
proof (induction js arbitrary: newIDs hasNew)
  case Nil
  then show ?case by simp
next
  case (Cons j js)
  then have legs: "journeyID Format j = Some (identity Format j)"
    and rest: "list_all (\<lambda>j. Legs j \<noteq> []) js"
    by (simp_all add: journeyID_identity)
  have ids: "(\<lambda>k. if k \<in> identity Format ` set js then Some True
                  else (newIDs(identity Format j \<mapsto> True)) k) =
      (\<lambda>k. if k \<in> identity Format ` set (j # js) then Some True else newIDs k)"
    by (auto simp: fun_eq_iff)
  show ?case
    by (simp add: legs Cons.IH [OF rest] ids)
qed

lemma detectNew_result:
  "list_all (\<lambda>j. Legs j \<noteq> []) js \<Longrightarrow>
   detectNew Format prev js =
     Some (map (\<lambda>j. j\<lparr>IsNew := \<not> lookupBool prev (identity Format j)\<rparr>) js,
           (\<lambda>k. if k \<in> identity Format ` set js then Some True else None),
           list_ex (\<lambda>j. \<not> lookupBool prev (identity Format j)) js)"
  by (simp add: detectNew_def detectLoop_result)

lemma refresh_failure:
  "net (stationID (LastOrigin (config a))) (stationID (LastDest (config a))) = Inl err \<Longrightarrow>
   refresh Parse ToLower Format net now a =
     Some (a\<lparr>isLoading := False, refreshPulse := True, journeys := [], lastUpdate := now,
             selectedIdx := 0\<rparr>)"
  by (simp add: refresh_def refreshApply_def refreshBegin_def fetchJourneys_def)

lemma legs_of_built:
  "list_all (\<lambda>j. Legs j \<noteq> []) (buildJourneys Parse ToLower filt apiResp)"
  using buildJourney_Some(3) by (fastforce simp: list_all_iff in_buildJourneys)

lemma refresh_success:
  assumes "net (stationID (LastOrigin (config a))) (stationID (LastDest (config a))) = Inr apiResp"
  shows "\<exists>a'. refresh Parse ToLower Format net now a = Some a' \<and>
      journeys a' =
        map (\<lambda>j. j\<lparr>IsNew := \<not> lookupBool (prevJourneyIDs a) (identity Format j)\<rparr>)
          (buildJourneys Parse ToLower Mapping.empty apiResp) \<and>
      \<not> isLoading a' \<and> selectedIdx a' = 0 \<and> filters a' = filters a"
  using assms
  by (simp add: refresh_def refreshApply_def refreshBegin_def fetchJourneys_def
      detectNew_result [OF legs_of_built])

lemma refresh_filters:
  "refresh Parse ToLower Format net now (a\<lparr>filters := f\<rparr>) =
     map_option (\<lambda>a'. a'\<lparr>filters := f\<rparr>) (refresh Parse ToLower Format net now a)"
  by (simp add: refresh_def refreshApply_def refreshBegin_def
      split: sum.split option.split prod.split)

section \<open>Ordering of the result\<close>

text \<open>
  Claim C2. For every response and every filter mapping, the list that the builder
  returns is sorted: of two journeys, the one that stands first leaves earlier, or they
  leave at the same instant and its total wait is not larger (as signed durations).
\<close>

theorem buildJourneys_sorted:
  "sorted_wrt departOrder (buildJourneys Parse ToLower filt apiResp)"
  by (simp add: buildJourneys_def sorted_sortSlice)


theorem buildJourneys_sorted_witness:
  "buildJourneys exParse asciiLower noFilters exResponse = [builtDirect, builtWalkFirst, builtBus] \<and>
   sorted_wrt departOrder [builtDirect, builtWalkFirst, builtBus] \<and>
   departOrder builtDirect builtWalkFirst \<and> \<not> departOrder builtWalkFirst builtDirect \<and>
   departOrder builtWalkFirst builtBus \<and> \<not> departOrder builtBus builtWalkFirst"
proof -
  have order: "departOrder builtDirect builtWalkFirst" "\<not> departOrder builtWalkFirst builtDirect"
    "departOrder builtWalkFirst builtBus" "\<not> departOrder builtBus builtWalkFirst"
    by (simp_all add: departOrder_def example_defs word_sle_eq)
  from buildJourneys_sorted [of exParse asciiLower noFilters exResponse]
  have "sorted_wrt departOrder [builtDirect, builtWalkFirst, builtBus]"
    unfolding build_exResponse .
  with order build_exResponse show ?thesis by blast
qed

section \<open>Occupancy classification\<close>

lemma parseOccupancy_firstMatch:
  "parseOccupancy ToLower remarks = firstMatch ToLower remarks"
  by (induction remarks)
     (simp_all add: firstMatch_def remarkLevel_def occupancyRemark_def keywordLevel_def Let_def)

lemma remarkLevel_cong:
  "sameUpToCase ToLower r r' \<Longrightarrow> remarkLevel ToLower r = remarkLevel ToLower r'"
  by (simp add: sameUpToCase_def remarkLevel_def occupancyRemark_def)

lemma map_filter_remarkLevel_cong:
  "list_all2 (sameUpToCase ToLower) rs rs' \<Longrightarrow>
   List.map_filter (remarkLevel ToLower) rs = List.map_filter (remarkLevel ToLower) rs'"
  by (induction rs rs' rule: list_all2_induct)
     (simp_all add: remarkLevel_cong split: option.split)

lemma map_filter_no_keyword:
  "list_all (\<lambda>r. keywordLevel (ToLower (remarkText r)) = None) rs \<Longrightarrow>
   List.map_filter (remarkLevel ToLower) rs = []"
  by (induction rs) (simp_all add: remarkLevel_def)

text \<open>
  Claim C5, as amended. For every list of remarks, \<open>parseOccupancy\<close> returns the level
  of the first remark that matches, and the empty string, no level, when no remark matches;
  in particular when no remark holds a keyword. A remark matches when it is about
  occupancy (its code mentions \<open>occup\<close> or its text mentions \<open>occupancy\<close>) and its text
  holds a keyword; a remark that is not about occupancy is passed over, whatever keyword
  it holds. Within a remark \<open>low\<close> is checked before \<open>medium\<close> or \<open>moderate\<close> (both give
  \<open>medium\<close>) before \<open>high\<close>. The scan is insensitive to case: two lists whose remarks
  agree after lower-casing get the same level.
\<close>

theorem parseOccupancy_scan:
  "parseOccupancy ToLower remarks = firstMatch ToLower remarks \<and>
   (list_all2 (sameUpToCase ToLower) remarks remarks' \<longrightarrow>
      parseOccupancy ToLower remarks = parseOccupancy ToLower remarks') \<and>
   (occupancyRemark ToLower r \<and> Contains (ToLower (remarkText r)) ''low'' \<longrightarrow>
      parseOccupancy ToLower (r # remarks) = ''low'') \<and>
   (occupancyRemark ToLower r \<and> \<not> Contains (ToLower (remarkText r)) ''low'' \<and>
    (Contains (ToLower (remarkText r)) ''medium'' \<or>
     Contains (ToLower (remarkText r)) ''moderate'') \<longrightarrow>
      parseOccupancy ToLower (r # remarks) = ''medium'') \<and>
   (occupancyRemark ToLower r \<and> \<not> Contains (ToLower (remarkText r)) ''low'' \<and>
    \<not> Contains (ToLower (remarkText r)) ''medium'' \<and>
    \<not> Contains (ToLower (remarkText r)) ''moderate'' \<and>
    Contains (ToLower (remarkText r)) ''high'' \<longrightarrow>
      parseOccupancy ToLower (r # remarks) = ''high'') \<and>
   (remarkLevel ToLower r = None \<longrightarrow>
      parseOccupancy ToLower (r # remarks) = parseOccupancy ToLower remarks) \<and>
   (list_all (\<lambda>r. keywordLevel (ToLower (remarkText r)) = None) remarks \<longrightarrow>
      parseOccupancy ToLower remarks = '''')"
proof (intro conjI impI)
  show "parseOccupancy ToLower remarks = firstMatch ToLower remarks"
    by (rule parseOccupancy_firstMatch)
next
  assume "list_all2 (sameUpToCase ToLower) remarks remarks'"
  then show "parseOccupancy ToLower remarks = parseOccupancy ToLower remarks'"
    by (simp add: parseOccupancy_firstMatch firstMatch_def map_filter_remarkLevel_cong)
next
  assume "list_all (\<lambda>r. keywordLevel (ToLower (remarkText r)) = None) remarks"
  then show "parseOccupancy ToLower remarks = ''''"
    by (simp add: parseOccupancy_firstMatch firstMatch_def map_filter_no_keyword)
qed (auto simp: occupancyRemark_def remarkLevel_def keywordLevel_def Let_def split: if_splits)

theorem parseOccupancy_scan_witness:
  "list_all2 (sameUpToCase asciiLower) [remarkFloor, remarkBoth] [remarkFloor, remarkBoth'] \<and>
   parseOccupancy asciiLower [remarkFloor, remarkBoth] = ''low'' \<and>
   parseOccupancy asciiLower [remarkFloor, remarkBoth'] = ''low'' \<and>
   occupancyRemark asciiLower remarkBoth \<and>
   Contains (asciiLower (remarkText remarkBoth)) ''low'' \<and>
   Contains (asciiLower (remarkText remarkBoth)) ''high'' \<and>
   parseOccupancy asciiLower [remarkBoth, remarkHigh] = ''low'' \<and>
   occupancyRemark asciiLower remarkModerate \<and>
   \<not> Contains (asciiLower (remarkText remarkModerate)) ''low'' \<and>
   Contains (asciiLower (remarkText remarkModerate)) ''moderate'' \<and>
   Contains (asciiLower (remarkText remarkModerate)) ''high'' \<and>
   parseOccupancy asciiLower [remarkModerate, remarkBoth] = ''medium'' \<and>
   occupancyRemark asciiLower remarkHigh \<and>
   \<not> Contains (asciiLower (remarkText remarkHigh)) ''low'' \<and>
   \<not> Contains (asciiLower (remarkText remarkHigh)) ''medium'' \<and>
   \<not> Contains (asciiLower (remarkText remarkHigh)) ''moderate'' \<and>
   Contains (asciiLower (remarkText remarkHigh)) ''high'' \<and>
   parseOccupancy asciiLower [remarkHigh, remarkBoth] = ''high'' \<and>
   remarkLevel asciiLower remarkFloor = None \<and>
   list_all (\<lambda>r. keywordLevel (asciiLower (remarkText r)) = None) [remarkFull] \<and>
   parseOccupancy asciiLower [remarkFull] = []"
proof -
  have lower:
    "asciiLower (remarkCode remarkFloor) = ''bf''"
    "asciiLower (remarkText remarkFloor) = ''low-floor vehicle''"
    "asciiLower (remarkCode remarkBoth) = ''occup''"
    "asciiLower (remarkText remarkBoth) = ''high, not low''"
    "asciiLower (remarkCode remarkBoth') = ''occup''"
    "asciiLower (remarkText remarkBoth') = ''high, not low''"
    "asciiLower (remarkCode remarkModerate) = ''x''"
    "asciiLower (remarkText remarkModerate) = ''occupancy: moderate to high''"
    "asciiLower (remarkCode remarkHigh) = ''occup-3''"
    "asciiLower (remarkText remarkHigh) = ''very high''"
    "asciiLower (remarkCode remarkFull) = ''occup''"
    "asciiLower (remarkText remarkFull) = ''full''"
    by (simp_all add: asciiLower_def remarkFloor_def remarkBoth_def remarkBoth'_def
        remarkModerate_def remarkHigh_def remarkFull_def)
  have same: "list_all2 (sameUpToCase asciiLower) [remarkFloor, remarkBoth]
      [remarkFloor, remarkBoth']"
    by (simp add: sameUpToCase_def lower)
  have both: "occupancyRemark asciiLower remarkBoth"
    "Contains (asciiLower (remarkText remarkBoth)) ''low''"
    "Contains (asciiLower (remarkText remarkBoth)) ''high''"
    by (simp_all add: occupancyRemark_def lower)
  have moderate: "occupancyRemark asciiLower remarkModerate"
    "\<not> Contains (asciiLower (remarkText remarkModerate)) ''low''"
    "Contains (asciiLower (remarkText remarkModerate)) ''moderate''"
    "Contains (asciiLower (remarkText remarkModerate)) ''high''"
    by (simp_all add: occupancyRemark_def lower)
  have high: "occupancyRemark asciiLower remarkHigh"
    "\<not> Contains (asciiLower (remarkText remarkHigh)) ''low''"
    "\<not> Contains (asciiLower (remarkText remarkHigh)) ''medium''"
    "\<not> Contains (asciiLower (remarkText remarkHigh)) ''moderate''"
    "Contains (asciiLower (remarkText remarkHigh)) ''high''"
    by (simp_all add: occupancyRemark_def lower)
  have floor: "remarkLevel asciiLower remarkFloor = None"
    by (simp add: remarkLevel_def occupancyRemark_def lower)
  have full: "list_all (\<lambda>r. keywordLevel (asciiLower (remarkText r)) = None) [remarkFull]"
    by (simp add: keywordLevel_def lower)
  from parseOccupancy_scan [of asciiLower "[remarkHigh]" "[remarkHigh]" remarkBoth] both
  have r1: "parseOccupancy asciiLower [remarkBoth, remarkHigh] = ''low''"
    by blast
  from parseOccupancy_scan [of asciiLower "[remarkBoth]" "[remarkBoth]" remarkModerate] moderate
  have r2: "parseOccupancy asciiLower [remarkModerate, remarkBoth] = ''medium''"
    by blast
  from parseOccupancy_scan [of asciiLower "[remarkBoth]" "[remarkBoth]" remarkHigh] high
  have r3: "parseOccupancy asciiLower [remarkHigh, remarkBoth] = ''high''"
    by blast
  from parseOccupancy_scan [of asciiLower "[remarkBoth]" "[remarkBoth']" remarkFloor] floor
  have "parseOccupancy asciiLower [remarkFloor, remarkBoth] = parseOccupancy asciiLower [remarkBoth]"
    by blast
  moreover
  from parseOccupancy_scan [of asciiLower "[]" "[]" remarkBoth] both
  have "parseOccupancy asciiLower [remarkBoth] = ''low''"
    by blast
  ultimately have r4: "parseOccupancy asciiLower [remarkFloor, remarkBoth] = ''low''"
    by (rule trans)
  from parseOccupancy_scan [of asciiLower "[remarkFloor, remarkBoth]"
      "[remarkFloor, remarkBoth']" remarkFloor] same
  have "parseOccupancy asciiLower [remarkFloor, remarkBoth] =
      parseOccupancy asciiLower [remarkFloor, remarkBoth']"
    by blast
  from this [symmetric] r4
  have r5: "parseOccupancy asciiLower [remarkFloor, remarkBoth'] = ''low''"
    by (rule trans)
  from parseOccupancy_scan [of asciiLower "[remarkFull]" "[remarkFull]" remarkFloor] full
  have r6: "parseOccupancy asciiLower [remarkFull] = []"
    by blast
  from same both moderate high floor full r1 r2 r3 r4 r5 r6 show ?thesis
    by blast
qed

text \<open>The remark ``Low-floor vehicle'' holds the keyword \<open>low\<close> and is not about occupancy:
  no level is assigned.\<close>

theorem parseOccupancy_keyword_counterexample:
  "Contains (asciiLower (remarkText remarkFloor)) ''low'' \<and>
   parseOccupancy asciiLower [remarkFloor] = []"
  by (simp add: remarkFloor_def asciiLower_def)

section \<open>Legs and time span of a journey\<close>

text \<open>
  Claim C3, as amended. Every journey that the builder returns has at least one leg, and
  neither its departure nor its arrival is the zero time. Its departure is not later than
  its arrival when the raw journeys of the response are chronological; the builder does
  not compare the two times itself.
\<close>

theorem buildJourneys_legs_and_span:
  "j \<in> set (buildJourneys Parse ToLower filt apiResp) \<longrightarrow>
     Legs j \<noteq> [] \<and> \<not> IsZero (LeaveAt j) \<and> \<not> IsZero (ArriveAt j) \<and>
     (list_all (chronological Parse) (Journeys apiResp) \<longrightarrow>
        instant (LeaveAt j) \<le> instant (ArriveAt j))"
proof (intro impI conjI)
  assume j: "j \<in> set (buildJourneys Parse ToLower filt apiResp)"
  then obtain aj where aj: "aj \<in> set (Journeys apiResp)"
      and b: "buildJourney Parse ToLower filt aj = Some j"
    by (auto simp: in_buildJourneys)
  note facts = buildJourney_Some [OF b]
  show "Legs j \<noteq> []" by (rule facts)
  show "\<not> IsZero (LeaveAt j)" by (rule facts)
  show "\<not> IsZero (ArriveAt j)" by (rule facts)
  assume "list_all (chronological Parse) (Journeys apiResp)"
  with aj have chron: "chronological Parse aj" by (simp add: list_all_iff)
  have "last (Legs j) \<in> set (builtLegs Parse ToLower (apiLegs aj))"
    using facts(2,3) by (metis last_in_set)
  then obtain i where i: "i < length (apiLegs aj)"
      and leg: "builtLeg Parse ToLower (take i (apiLegs aj)) (apiLegs aj ! i) = Some (last (Legs j))"
    by (auto simp: in_builtLegs)
  have "parseTime Parse (legArrival (apiLegs aj ! i)) = Some (ArriveAt j)"
    using builtLeg_Arrival [OF leg] facts(6) by simp
  with chron facts(1,5) i show "instant (LeaveAt j) \<le> instant (ArriveAt j)"
    by (intro chronological_arrival [of Parse aj _ "apiLegs aj ! i"]) simp_all
qed

theorem buildJourneys_legs_and_span_witness:
  "builtWalkFirst \<in> set (buildJourneys exParse asciiLower noFilters
      \<lparr>Journeys = [journeyWalkFirst]\<rparr>) \<and>
   list_all (chronological exParse) (Journeys \<lparr>Journeys = [journeyWalkFirst]\<rparr>) \<and>
   Legs builtWalkFirst \<noteq> [] \<and>
   instant (LeaveAt builtWalkFirst) \<le> instant (ArriveAt builtWalkFirst)"
proof -
  have mem: "builtWalkFirst \<in> set (buildJourneys exParse asciiLower noFilters
      \<lparr>Journeys = [journeyWalkFirst]\<rparr>)"
    by (simp add: build_walkFirst)
  have chron: "list_all (chronological exParse) (Journeys \<lparr>Journeys = [journeyWalkFirst]\<rparr>)"
    by (simp add: chronological_def parseTime_def ReplaceAll_def example_defs)
  from buildJourneys_legs_and_span
    [of builtWalkFirst exParse asciiLower noFilters "\<lparr>Journeys = [journeyWalkFirst]\<rparr>"]
    mem chron
  show ?thesis by blast
qed

text \<open>The response with the one journey whose leg arrives before it departs: the builder
  returns the journey, with an arrival that is earlier than its departure.\<close>

theorem buildJourneys_span_counterexample:
  "buildJourneys exParse asciiLower noFilters \<lparr>Journeys = [journeyBackwards]\<rparr> =
     [builtBackwards] \<and>
   instant (ArriveAt builtBackwards) < instant (LeaveAt builtBackwards)"
  by (simp add: build_backwards) (simp add: example_defs)

section \<open>Departure, arrival and duration\<close>

text \<open>
  Claim C4, as amended. For every journey that the builder returns, the departure is the
  departure of the first raw leg of the raw journey it was built from, a walk included;
  it is the departure of the journey's first leg when that first raw leg is itself built
  into a leg. The arrival is the arrival of the last leg, and the duration is the arrival
  minus the departure (\<open>time.Sub\<close>).
\<close>

theorem buildJourneys_times:
  "j \<in> set (buildJourneys Parse ToLower filt apiResp) \<longrightarrow>
     (\<exists>aj\<in>set (Journeys apiResp).
         apiLegs aj \<noteq> [] \<and> Legs j = builtLegs Parse ToLower (apiLegs aj) \<and>
         parseTime Parse (legDeparture (hd (apiLegs aj))) = Some (LeaveAt j) \<and>
         (builtLeg Parse ToLower [] (hd (apiLegs aj)) \<noteq> None \<longrightarrow>
            Departure (hd (Legs j)) = LeaveAt j)) \<and>
     ArriveAt j = Arrival (last (Legs j)) \<and>
     Duration j = Sub (ArriveAt j) (LeaveAt j)"
proof
  assume "j \<in> set (buildJourneys Parse ToLower filt apiResp)"
  then obtain aj where aj: "aj \<in> set (Journeys apiResp)"
      and b: "buildJourney Parse ToLower filt aj = Some j"
    by (auto simp: in_buildJourneys)
  note facts = buildJourney_Some [OF b]
  have first: "Departure (hd (Legs j)) = LeaveAt j"
    if "builtLeg Parse ToLower [] (hd (apiLegs aj)) \<noteq> None"
  proof -
    from that obtain leg where leg: "builtLeg Parse ToLower [] (hd (apiLegs aj)) = Some leg"
      by auto
    have "hd (Legs j) = leg"
      using builtLegs_hd [OF facts(1) leg] facts(2) by simp
    with builtLeg_Departure [OF leg] facts(5) show ?thesis by simp
  qed
  from aj facts first
  show "(\<exists>aj\<in>set (Journeys apiResp).
         apiLegs aj \<noteq> [] \<and> Legs j = builtLegs Parse ToLower (apiLegs aj) \<and>
         parseTime Parse (legDeparture (hd (apiLegs aj))) = Some (LeaveAt j) \<and>
         (builtLeg Parse ToLower [] (hd (apiLegs aj)) \<noteq> None \<longrightarrow>
            Departure (hd (Legs j)) = LeaveAt j)) \<and>
     ArriveAt j = Arrival (last (Legs j)) \<and>
     Duration j = Sub (ArriveAt j) (LeaveAt j)"
    by blast
qed

theorem buildJourneys_times_witness:
  "builtBus \<in> set (buildJourneys exParse asciiLower noFilters \<lparr>Journeys = [journeyBus]\<rparr>) \<and>
   ArriveAt builtBus = Arrival (last (Legs builtBus)) \<and>
   Duration builtBus = Sub (ArriveAt builtBus) (LeaveAt builtBus) \<and>
   builtLeg exParse asciiLower [] (hd (apiLegs journeyBus)) \<noteq> None \<and>
   parseTime exParse (legDeparture (hd (apiLegs journeyBus))) = Some (LeaveAt builtBus) \<and>
   Departure (hd (Legs builtBus)) = LeaveAt builtBus"
proof -
  have mem: "builtBus \<in> set (buildJourneys exParse asciiLower noFilters
      \<lparr>Journeys = [journeyBus]\<rparr>)"
    by (simp add: build_bus)
  have first: "builtLeg exParse asciiLower [] (hd (apiLegs journeyBus)) \<noteq> None"
    by (simp add: builtLeg_def parseTime_def ReplaceAll_def example_defs)
  from buildJourneys_times
    [of builtBus exParse asciiLower noFilters "\<lparr>Journeys = [journeyBus]\<rparr>"] mem
  obtain aj where aj: "aj \<in> set (Journeys \<lparr>Journeys = [journeyBus]\<rparr>)"
    and start: "parseTime exParse (legDeparture (hd (apiLegs aj))) = Some (LeaveAt builtBus)"
    and dep: "builtLeg exParse asciiLower [] (hd (apiLegs aj)) \<noteq> None \<longrightarrow>
        Departure (hd (Legs builtBus)) = LeaveAt builtBus"
    and rest: "ArriveAt builtBus = Arrival (last (Legs builtBus))"
      "Duration builtBus = Sub (ArriveAt builtBus) (LeaveAt builtBus)"
    by blast
  from aj have "aj = journeyBus" by simp
  with start dep rest mem first show ?thesis by blast
qed

text \<open>The journey that starts with a walk at 08:00 and boards the S3 at 08:10: its
  departure is 08:00, the departure of its first leg is 08:10.\<close>

theorem buildJourneys_first_leg_counterexample:
  "buildJourneys exParse asciiLower noFilters \<lparr>Journeys = [journeyWalkFirst]\<rparr> =
     [builtWalkFirst] \<and>
   LeaveAt builtWalkFirst = at0800 \<and>
   Departure (hd (Legs builtWalkFirst)) = at0810 \<and>
   at0800 \<noteq> at0810"
  by (simp add: build_walkFirst) (simp add: example_defs)

section \<open>Waiting times\<close>

text \<open>
  Claim C9, as amended. For every journey that the builder returns, the legs are the legs
  built from the raw legs of a raw journey of the response, in their order. Each comes
  from a raw leg, and its wait is \<open>max(0, departure - previousArrival)\<close>, where the previous
  arrival is the one handed on by the raw legs before it: every walk or transfer whose
  arrival parses hands its arrival on, one that stands before the first leg included, and
  the wait is 0 when no arrival has been handed on, as for a raw leg that stands first.
  The total wait of the journey is the sum of the waits of its legs. Differences and sums
  are those of \<open>time.Duration\<close>: \<open>time.Sub\<close> stops at the largest duration and the sum is
  taken in 64 bits (\<open>sint_Sub\<close>, \<open>sint_maxDuration0\<close>).
\<close>

theorem buildJourneys_waits:
  "j \<in> set (buildJourneys Parse ToLower filt apiResp) \<longrightarrow>
     (\<exists>aj\<in>set (Journeys apiResp).
         Legs j = builtLegs Parse ToLower (apiLegs aj) \<and>
         (\<forall>leg\<in>set (Legs j). \<exists>i<length (apiLegs aj).
             builtLeg Parse ToLower (take i (apiLegs aj)) (apiLegs aj ! i) = Some leg \<and>
             WaitBefore leg =
               (if IsZero (previousArrival Parse (take i (apiLegs aj))) then 0
                else maxDuration0
                       (Sub (Departure leg) (previousArrival Parse (take i (apiLegs aj))))) \<and>
             (i = 0 \<longrightarrow> WaitBefore leg = 0))) \<and>
     TotalWait j = sum_list (map WaitBefore (Legs j))"
proof
  assume "j \<in> set (buildJourneys Parse ToLower filt apiResp)"
  then obtain aj where aj: "aj \<in> set (Journeys apiResp)"
      and b: "buildJourney Parse ToLower filt aj = Some j"
    by (auto simp: in_buildJourneys)
  note facts = buildJourney_Some [OF b]
  have each: "\<exists>i<length (apiLegs aj).
      builtLeg Parse ToLower (take i (apiLegs aj)) (apiLegs aj ! i) = Some leg \<and>
      WaitBefore leg =
        (if IsZero (previousArrival Parse (take i (apiLegs aj))) then 0
         else maxDuration0 (Sub (Departure leg) (previousArrival Parse (take i (apiLegs aj))))) \<and>
      (i = 0 \<longrightarrow> WaitBefore leg = 0)"
    if "leg \<in> set (Legs j)" for leg
  proof -
    from that facts(2) obtain i where i: "i < length (apiLegs aj)"
        and leg: "builtLeg Parse ToLower (take i (apiLegs aj)) (apiLegs aj ! i) = Some leg"
      by (auto simp: in_builtLegs)
    have w: "WaitBefore leg =
        waitBefore (previousArrival Parse (take i (apiLegs aj))) (Departure leg)"
      using leg by (auto simp: builtLeg_def makeLeg_def split: option.splits)
    have "WaitBefore leg = 0" if "i = 0"
      using w that by (simp add: previousArrival_Nil waitBefore_def zeroTime_def IsZero_def)
    with i leg w show ?thesis
      unfolding waitBefore_def by blast
  qed
  from aj facts(2,8) each
  show "(\<exists>aj\<in>set (Journeys apiResp).
         Legs j = builtLegs Parse ToLower (apiLegs aj) \<and>
         (\<forall>leg\<in>set (Legs j). \<exists>i<length (apiLegs aj).
             builtLeg Parse ToLower (take i (apiLegs aj)) (apiLegs aj ! i) = Some leg \<and>
             WaitBefore leg =
               (if IsZero (previousArrival Parse (take i (apiLegs aj))) then 0
                else maxDuration0
                       (Sub (Departure leg) (previousArrival Parse (take i (apiLegs aj))))) \<and>
             (i = 0 \<longrightarrow> WaitBefore leg = 0))) \<and>
     TotalWait j = sum_list (map WaitBefore (Legs j))"
    by blast
qed

theorem buildJourneys_waits_witness:
  "builtWalkFirst \<in> set (buildJourneys exParse asciiLower noFilters
      \<lparr>Journeys = [journeyWalkFirst]\<rparr>) \<and>
   Legs builtWalkFirst = builtLegs exParse asciiLower (apiLegs journeyWalkFirst) \<and>
   map WaitBefore (Legs builtWalkFirst) = [300000000000, 420000000000] \<and>
   previousArrival exParse (take 1 (apiLegs journeyWalkFirst)) = at0805 \<and>
   maxDuration0 (Sub at0810 at0805) = 300000000000 \<and>
   previousArrival exParse (take 3 (apiLegs journeyWalkFirst)) = at0833 \<and>
   maxDuration0 (Sub at0840 at0833) = 420000000000 \<and>
   TotalWait builtWalkFirst = 720000000000 \<and>
   TotalWait builtWalkFirst = sum_list (map WaitBefore (Legs builtWalkFirst))"
proof -
  have mem: "builtWalkFirst \<in> set (buildJourneys exParse asciiLower noFilters
      \<lparr>Journeys = [journeyWalkFirst]\<rparr>)"
    by (simp add: build_walkFirst)
  have waits: "map WaitBefore (Legs builtWalkFirst) = [300000000000, 420000000000]"
    and total: "TotalWait builtWalkFirst = 720000000000"
    by (simp_all add: builtWalkFirst_def exLeg_def)
  have prev: "previousArrival exParse (take 1 (apiLegs journeyWalkFirst)) = at0805"
    "previousArrival exParse (take 3 (apiLegs journeyWalkFirst)) = at0833"
    by (simp_all add: previousArrival_def arrivalOf_def parseTime_def ReplaceAll_def
        example_defs)
  have diff: "maxDuration0 (Sub at0810 at0805) = 300000000000"
    "maxDuration0 (Sub at0840 at0833) = 420000000000"
    by (simp_all add: maxDuration0_def Sub_def minDuration_def maxDuration_def example_defs
        word_sless_alt)
  from buildJourneys_waits
    [of builtWalkFirst exParse asciiLower noFilters "\<lparr>Journeys = [journeyWalkFirst]\<rparr>"] mem
  obtain aj where aj: "aj \<in> set (Journeys \<lparr>Journeys = [journeyWalkFirst]\<rparr>)"
    and legs: "Legs builtWalkFirst = builtLegs exParse asciiLower (apiLegs aj)"
    and sum: "TotalWait builtWalkFirst = sum_list (map WaitBefore (Legs builtWalkFirst))"
    by blast
  from aj have "aj = journeyWalkFirst" by simp
  with legs sum mem waits total prev diff show ?thesis by blast
qed

text \<open>The journey that starts with a walk from 08:00 to 08:05: its first leg, the S3 at
  08:10, has a wait of five minutes, not 0.\<close>

theorem buildJourneys_first_wait_counterexample:
  "buildJourneys exParse asciiLower noFilters \<lparr>Journeys = [journeyWalkFirst]\<rparr> =
     [builtWalkFirst] \<and>
   Line (hd (Legs builtWalkFirst)) = ''S3'' \<and>
   WaitBefore (hd (Legs builtWalkFirst)) = 300000000000 \<and>
   WaitBefore (hd (Legs builtWalkFirst)) \<noteq> 0"
  by (simp add: build_walkFirst) (simp add: builtWalkFirst_def exLeg_def)

section \<open>Filtering\<close>

lemma lookup_not_empty: "Mapping.lookup m k = Some v \<Longrightarrow> \<not> Mapping.is_empty m"
  by (auto simp: Mapping.is_empty_def keys_dom_lookup)

lemma skipJourney_enable:
  "skipJourney (Mapping.update mode True filt) legs \<Longrightarrow> skipJourney filt legs"
  by (auto simp: skipJourney_def list_ex_iff Mapping.lookup_update' lookup_not_empty
      split: if_splits)

lemma buildJourney_enable:
  "buildJourney Parse ToLower filt aj = Some j \<Longrightarrow>
   buildJourney Parse ToLower (Mapping.update mode True filt) aj = Some j"
  using skipJourney_enable [of mode filt]
  by (auto simp: buildJourney_def split: list.splits option.splits if_splits prod.splits)

lemma subset_add_mset: "A \<subseteq># B \<Longrightarrow> A \<subseteq># add_mset x B"
  by (simp add: subseteq_mset_def le_SucI)

lemma mset_map_filter_mono:
  "(\<And>x y. f x = Some y \<Longrightarrow> g x = Some y) \<Longrightarrow>
   mset (List.map_filter f xs) \<subseteq># mset (List.map_filter g xs)"
proof (induction xs)
  case Nil
  then show ?case by simp
next
  case (Cons x xs)
  then have IH: "mset (List.map_filter f xs) \<subseteq># mset (List.map_filter g xs)"
    by blast
  show ?case
  proof (cases "f x")
    case None
    with IH show ?thesis
      by (cases "g x") (simp_all add: subset_add_mset)
  next
    case (Some y)
    with Cons.prems have "g x = Some y" by blast
    with Some IH show ?thesis by simp
  qed
qed

text \<open>
  Claim C8. For every response and every filter mapping, setting the flag of one mode to
  true removes no journey: the journeys built under the mapping are among the journeys
  built under the changed mapping, with their multiplicities. And no journey that the
  builder returns has a leg whose mode the mapping sends to false.
\<close>

theorem filtering_monotonic:
  "mset (buildJourneys Parse ToLower filt apiResp) \<subseteq>#
     mset (buildJourneys Parse ToLower (Mapping.update mode True filt) apiResp) \<and>
   (j \<in> set (buildJourneys Parse ToLower filt apiResp) \<longrightarrow>
      list_all (\<lambda>leg. Mapping.lookup filt (Product leg) \<noteq> Some False) (Legs j))"
proof (intro conjI impI)
  show "mset (buildJourneys Parse ToLower filt apiResp) \<subseteq>#
      mset (buildJourneys Parse ToLower (Mapping.update mode True filt) apiResp)"
    unfolding buildJourneys_def mset_sortSlice journeysLoop_map_filter
    by (rule mset_map_filter_mono) (rule buildJourney_enable)
next
  assume "j \<in> set (buildJourneys Parse ToLower filt apiResp)"
  then obtain aj where "buildJourney Parse ToLower filt aj = Some j"
    by (auto simp: in_buildJourneys)
  then have "\<not> skipJourney filt (Legs j)" by (rule buildJourney_Some)
  then show "list_all (\<lambda>leg. Mapping.lookup filt (Product leg) \<noteq> Some False) (Legs j)"
    by (auto simp: skipJourney_def list_ex_iff list_all_iff lookup_not_empty)
qed

theorem filtering_monotonic_witness:
  "Mapping.lookup noBus ''bus'' = Some False \<and>
   buildJourneys exParse asciiLower noBus exResponse = [builtDirect, builtWalkFirst] \<and>
   buildJourneys exParse asciiLower (Mapping.update ''bus'' True noBus) exResponse =
     [builtDirect, builtWalkFirst, builtBus] \<and>
   mset [builtDirect, builtWalkFirst] \<subseteq># mset [builtDirect, builtWalkFirst, builtBus] \<and>
   builtWalkFirst \<in> set (buildJourneys exParse asciiLower noBus exResponse) \<and>
   list_all (\<lambda>leg. Mapping.lookup noBus (Product leg) \<noteq> Some False) (Legs builtWalkFirst) \<and>
   list_ex (\<lambda>leg. Mapping.lookup noBus (Product leg) = Some False) (Legs builtBus)"
proof -
  have flag: "Mapping.lookup noBus ''bus'' = Some False"
    by (simp add: noBus_def)
  have mem: "builtWalkFirst \<in> set (buildJourneys exParse asciiLower noBus exResponse)"
    by (simp add: build_exResponse_noBus)
  have bus: "list_ex (\<lambda>leg. Mapping.lookup noBus (Product leg) = Some False) (Legs builtBus)"
    by (simp add: noBus_def builtBus_def exLeg_def)
  from filtering_monotonic [of exParse asciiLower noBus exResponse "''bus''" builtWalkFirst] mem
  have "mset [builtDirect, builtWalkFirst] \<subseteq># mset [builtDirect, builtWalkFirst, builtBus]"
    and "list_all (\<lambda>leg. Mapping.lookup noBus (Product leg) \<noteq> Some False) (Legs builtWalkFirst)"
    unfolding build_exResponse_noBus build_exResponse_bus by blast+
  with flag mem bus build_exResponse_noBus build_exResponse_bus show ?thesis by blast
qed

section \<open>Delay history\<close>

lemma quo_pos: "0 < a \<Longrightarrow> quo a 60 = a div 60"
  by (simp add: quo_def)

lemma delaysOf_recordLeg_other:
  "line \<noteq> Line leg \<Longrightarrow> delaysOf (recordLeg now dh leg) line = delaysOf dh line"
  by (simp add: recordLeg_def delaysOf_def Let_def)

lemma delaysOf_recordLeg_skip:
  "\<not> 0 < DepDelay leg \<Longrightarrow> recordLeg now dh leg = dh"
  by (simp add: recordLeg_def)

lemma delaysOf_recordLeg_same:
  "0 < DepDelay leg \<Longrightarrow>
   delaysOf (recordLeg now dh leg) (Line leg) =
     (if length (delaysOf dh (Line leg)) < 20
      then delaysOf dh (Line leg) @ [DepDelay leg div 60]
      else drop (length (delaysOf dh (Line leg)) - 19) (delaysOf dh (Line leg)) @
             [DepDelay leg div 60])"
  by (auto simp: recordLeg_def delaysOf_def Let_def quo_pos Suc_diff_le split: option.splits)

lemma length_recordLeg:
  assumes "length (delaysOf dh line) \<le> 20"
  shows "length (delaysOf (recordLeg now dh leg) line) \<le> 20"
proof (cases "0 < DepDelay leg \<and> line = Line leg")
  case True
  then show ?thesis by (simp add: delaysOf_recordLeg_same)
next
  case False
  with assms show ?thesis
    by (auto simp: delaysOf_recordLeg_other delaysOf_recordLeg_skip)
qed

lemma length_foldl_recordLeg:
  "length (delaysOf dh line) \<le> 20 \<Longrightarrow>
   length (delaysOf (foldl (recordLeg now) dh legs) line) \<le> 20"
  by (induction legs arbitrary: dh) (simp_all add: length_recordLeg)

lemma length_recordDelays:
  "length (delaysOf dh line) \<le> 20 \<Longrightarrow>
   length (delaysOf (recordDelays now js dh) line) \<le> 20"
  unfolding recordDelays_def
  by (induction js arbitrary: dh) (simp_all add: length_foldl_recordLeg)

lemma length_recordAll:
  "length (delaysOf dh line) \<le> 20 \<Longrightarrow> length (delaysOf (recordAll cycles dh) line) \<le> 20"
  unfolding recordAll_def
  by (induction cycles arbitrary: dh) (simp_all add: length_recordDelays)

text \<open>
  Claim C6. After every sequence of record operations, from the empty history that the
  application starts with and from every history within the bound, no line has more than
  20 samples. A leg that is late adds its delay in whole minutes at the end of its line's
  samples; when the line has 20 samples already, the oldest one, at the front, is dropped.
\<close>

theorem delay_history_bounded:
  "length (delaysOf (recordAll cycles Map.empty) line) \<le> 20 \<and>
   (length (delaysOf dh line) \<le> 20 \<longrightarrow> length (delaysOf (recordAll cycles dh) line) \<le> 20) \<and>
   (0 < DepDelay leg \<and> length (delaysOf dh (Line leg)) < 20 \<longrightarrow>
      delaysOf (recordLeg now dh leg) (Line leg) = delaysOf dh (Line leg) @ [DepDelay leg div 60]) \<and>
   (0 < DepDelay leg \<and> length (delaysOf dh (Line leg)) = 20 \<longrightarrow>
      delaysOf (recordLeg now dh leg) (Line leg) =
        tl (delaysOf dh (Line leg)) @ [DepDelay leg div 60])"
proof (intro conjI impI)
  show "length (delaysOf (recordAll cycles Map.empty) line) \<le> 20"
    by (rule length_recordAll) (simp add: delaysOf_def)
next
  assume "length (delaysOf dh line) \<le> 20"
  then show "length (delaysOf (recordAll cycles dh) line) \<le> 20"
    by (rule length_recordAll)
next
  assume "0 < DepDelay leg \<and> length (delaysOf dh (Line leg)) < 20"
  then show "delaysOf (recordLeg now dh leg) (Line leg) =
      delaysOf dh (Line leg) @ [DepDelay leg div 60]"
    by (simp add: delaysOf_recordLeg_same)
next
  assume a: "0 < DepDelay leg \<and> length (delaysOf dh (Line leg)) = 20"
  then have "drop (length (delaysOf dh (Line leg)) - 19) (delaysOf dh (Line leg)) =
      tl (delaysOf dh (Line leg))"
    by (simp add: drop_Suc)
  with a show "delaysOf (recordLeg now dh leg) (Line leg) =
      tl (delaysOf dh (Line leg)) @ [DepDelay leg div 60]"
    by (simp add: delaysOf_recordLeg_same)
qed

theorem delay_history_bounded_witness:
  "length (delaysOf fullHistory ''S3'') \<le> 20 \<and>
   length (delaysOf (recordAll [(at0840, [builtBus]), (at0855, [builtWalkFirst])] fullHistory)
      ''S3'') \<le> 20 \<and>
   0 < DepDelay lateS3 \<and> length (delaysOf fullHistory (Line lateS3)) = 20 \<and>
   delaysOf (recordLeg at0855 fullHistory lateS3) ''S3'' =
     [2, 3, 4, 5, 6, 7, 8, 9, 10, 11, 12, 13, 14, 15, 16, 17, 18, 19, 20, 3] \<and>
   0 < DepDelay (hd (Legs builtBus)) \<and>
   length (delaysOf fullHistory (Line (hd (Legs builtBus)))) < 20 \<and>
   delaysOf (recordLeg at0840 fullHistory (hd (Legs builtBus))) ''142'' = [1]"
proof -
  have full: "delaysOf fullHistory ''S3'' =
      [1, 2, 3, 4, 5, 6, 7, 8, 9, 10, 11, 12, 13, 14, 15, 16, 17, 18, 19, 20]"
    and none: "delaysOf fullHistory ''142'' = []"
    by (simp_all add: delaysOf_def fullHistory_def)
  have late: "0 < DepDelay lateS3" "Line lateS3 = ''S3''" "DepDelay lateS3 div 60 = 3"
    and bus: "0 < DepDelay (hd (Legs builtBus))" "Line (hd (Legs builtBus)) = ''142''"
      "DepDelay (hd (Legs builtBus)) div 60 = 1"
    by (simp_all add: lateS3_def builtBus_def exLeg_def)
  from delay_history_bounded [of "[(at0840, [builtBus]), (at0855, [builtWalkFirst])]" "''S3''" fullHistory
      lateS3 at0855] full late
  have a: "length (delaysOf (recordAll [(at0840, [builtBus]), (at0855, [builtWalkFirst])]
      fullHistory) ''S3'') \<le> 20"
    and b: "delaysOf (recordLeg at0855 fullHistory lateS3) ''S3'' =
      [2, 3, 4, 5, 6, 7, 8, 9, 10, 11, 12, 13, 14, 15, 16, 17, 18, 19, 20, 3]"
    by simp_all
  from delay_history_bounded [of "[]" "''S3''" fullHistory "hd (Legs builtBus)" at0840] none bus
  have c: "delaysOf (recordLeg at0840 fullHistory (hd (Legs builtBus))) ''142'' = [1]"
    by simp
  from full none late bus a b c show ?thesis by simp
qed

section \<open>Novelty detection\<close>

text \<open>
  Claim C7. For every list of journeys that have a leg each, as the builder returns them,
  and every previous identity map, the detector returns the list with the flag \<open>IsNew\<close>
  of each journey set to whether its identity is absent from the previous map. The new
  identity map holds exactly the identities of the list, whatever the previous map held,
  and \<open>hasNew\<close> tells whether a journey was marked new. Run again on the same list with
  the new map, the detector marks no journey new and returns the same map.
\<close>

theorem detectNew_marks:
  "list_all (\<lambda>j. Legs j \<noteq> []) js \<longrightarrow>
     (\<exists>marked newIDs hasNew.
         detectNew Format prev js = Some (marked, newIDs, hasNew) \<and>
         marked = map (\<lambda>j. j\<lparr>IsNew := \<not> lookupBool prev (identity Format j)\<rparr>) js \<and>
         (\<forall>k. lookupBool newIDs k = (k \<in> identity Format ` set js)) \<and>
         dom newIDs = identity Format ` set js \<and>
         hasNew = list_ex IsNew marked \<and>
         detectNew Format newIDs js = Some (map (\<lambda>j. j\<lparr>IsNew := False\<rparr>) js, newIDs, False))"
proof
  assume legs: "list_all (\<lambda>j. Legs j \<noteq> []) js"
  let ?marked = "map (\<lambda>j. j\<lparr>IsNew := \<not> lookupBool prev (identity Format j)\<rparr>) js"
  let ?ids = "\<lambda>k. if k \<in> identity Format ` set js then Some True else None"
  let ?hasNew = "list_ex (\<lambda>j. \<not> lookupBool prev (identity Format j)) js"
  have first: "detectNew Format prev js = Some (?marked, ?ids, ?hasNew)"
    by (rule detectNew_result [OF legs])
  have look: "\<forall>k. lookupBool ?ids k = (k \<in> identity Format ` set js)"
    by (simp add: lookupBool_def)
  have dom: "dom ?ids = identity Format ` set js"
    by (auto simp: dom_def)
  have flag: "?hasNew = list_ex IsNew ?marked"
    by (simp add: list_ex_iff)
  have "map (\<lambda>j. j\<lparr>IsNew := \<not> lookupBool ?ids (identity Format j)\<rparr>) js =
      map (\<lambda>j. j\<lparr>IsNew := False\<rparr>) js"
    by (simp add: lookupBool_def)
  moreover have "list_ex (\<lambda>j. \<not> lookupBool ?ids (identity Format j)) js = False"
    by (simp add: lookupBool_def list_ex_iff)
  ultimately have again: "detectNew Format ?ids js =
      Some (map (\<lambda>j. j\<lparr>IsNew := False\<rparr>) js, ?ids, False)"
    using detectNew_result [OF legs, of Format ?ids] by simp
  from first look dom flag again
  show "\<exists>marked newIDs hasNew.
         detectNew Format prev js = Some (marked, newIDs, hasNew) \<and>
         marked = map (\<lambda>j. j\<lparr>IsNew := \<not> lookupBool prev (identity Format j)\<rparr>) js \<and>
         (\<forall>k. lookupBool newIDs k = (k \<in> identity Format ` set js)) \<and>
         dom newIDs = identity Format ` set js \<and>
         hasNew = list_ex IsNew marked \<and>
         detectNew Format newIDs js = Some (map (\<lambda>j. j\<lparr>IsNew := False\<rparr>) js, newIDs, False)"
    by blast
qed

theorem detectNew_marks_witness:
  "list_all (\<lambda>j. Legs j \<noteq> []) [builtDirect, builtWalkFirst] \<and>
   identity exFormat builtDirect = ''2024-05-01T08:00:00+02:00-RE1'' \<and>
   identity exFormat builtWalkFirst = ''2024-05-01T08:00:00+02:00-S3'' \<and>
   lookupBool seenDirect (identity exFormat builtDirect) \<and>
   \<not> lookupBool seenDirect (identity exFormat builtWalkFirst) \<and>
   (\<exists>newIDs.
      detectNew exFormat seenDirect [builtDirect, builtWalkFirst] =
        Some ([builtDirect\<lparr>IsNew := False\<rparr>, builtWalkFirst\<lparr>IsNew := True\<rparr>], newIDs, True) \<and>
      dom newIDs = {''2024-05-01T08:00:00+02:00-RE1'', ''2024-05-01T08:00:00+02:00-S3''} \<and>
      detectNew exFormat newIDs [builtDirect, builtWalkFirst] =
        Some ([builtDirect\<lparr>IsNew := False\<rparr>, builtWalkFirst\<lparr>IsNew := False\<rparr>], newIDs, False))"
proof -
  have legs: "list_all (\<lambda>j. Legs j \<noteq> []) [builtDirect, builtWalkFirst]"
    by (simp add: builtDirect_def builtWalkFirst_def)
  have ids: "identity exFormat builtDirect = ''2024-05-01T08:00:00+02:00-RE1''"
    "identity exFormat builtWalkFirst = ''2024-05-01T08:00:00+02:00-S3''"
    by (simp_all add: identity_def exFormat_def example_defs)
  have seen: "lookupBool seenDirect ''2024-05-01T08:00:00+02:00-RE1''"
    "\<not> lookupBool seenDirect ''2024-05-01T08:00:00+02:00-S3''"
    by (simp_all add: lookupBool_def seenDirect_def)
  from detectNew_marks [of "[builtDirect, builtWalkFirst]" exFormat seenDirect] legs
  obtain marked newIDs hasNew where
    run: "detectNew exFormat seenDirect [builtDirect, builtWalkFirst] = Some (marked, newIDs, hasNew)"
    and marked: "marked = map (\<lambda>j. j\<lparr>IsNew := \<not> lookupBool seenDirect (identity exFormat j)\<rparr>)
        [builtDirect, builtWalkFirst]"
    and dom: "dom newIDs = identity exFormat ` set [builtDirect, builtWalkFirst]"
    and flag: "hasNew = list_ex IsNew marked"
    and again: "detectNew exFormat newIDs [builtDirect, builtWalkFirst] =
        Some (map (\<lambda>j. j\<lparr>IsNew := False\<rparr>) [builtDirect, builtWalkFirst], newIDs, False)"
    by blast
  from marked ids seen
  have m: "marked = [builtDirect\<lparr>IsNew := False\<rparr>, builtWalkFirst\<lparr>IsNew := True\<rparr>]"
    by simp
  from flag m have h: "hasNew = True" by simp
  from dom ids
  have d: "dom newIDs = {''2024-05-01T08:00:00+02:00-RE1'', ''2024-05-01T08:00:00+02:00-S3''}"
    by simp
  from legs ids seen run m h d again show ?thesis by simp
qed

section \<open>The refresh cycle\<close>

text \<open>
  Claim C1, as amended. A refresh whose fetch returns an error does not panic; it empties
  the published journey list, leaves the previous identity map, the delay history and the
  highlight counter as they were, sets the selection to 0 and clears the loading flag.
  After a second failure in a row the list is still empty and the flag is cleared again.
\<close>

theorem refresh_failure_clears:
  "net (stationID (LastOrigin (config a))) (stationID (LastDest (config a))) = Inl err \<and>
   net' (stationID (LastOrigin (config a))) (stationID (LastDest (config a))) = Inl err' \<longrightarrow>
     (\<exists>a1 a2.
        refresh Parse ToLower Format net now a = Some a1 \<and>
        journeys a1 = [] \<and> \<not> isLoading a1 \<and> selectedIdx a1 = 0 \<and>
        prevJourneyIDs a1 = prevJourneyIDs a \<and> delayHistory a1 = delayHistory a \<and>
        newHighlight a1 = newHighlight a \<and> config a1 = config a \<and>
        refresh Parse ToLower Format net' now' a1 = Some a2 \<and>
        journeys a2 = [] \<and> \<not> isLoading a2 \<and> selectedIdx a2 = 0 \<and>
        prevJourneyIDs a2 = prevJourneyIDs a \<and> delayHistory a2 = delayHistory a \<and>
        newHighlight a2 = newHighlight a \<and> config a2 = config a)"
proof
  let ?a1 = "a\<lparr>isLoading := False, refreshPulse := True, journeys := [], lastUpdate := now,
             selectedIdx := 0\<rparr>"
  let ?a2 = "?a1\<lparr>isLoading := False, refreshPulse := True, journeys := [], lastUpdate := now',
             selectedIdx := 0\<rparr>"
  assume fail: "net (stationID (LastOrigin (config a))) (stationID (LastDest (config a))) = Inl err \<and>
   net' (stationID (LastOrigin (config a))) (stationID (LastDest (config a))) = Inl err'"
  then have one: "refresh Parse ToLower Format net now a = Some ?a1"
    by (simp add: refresh_failure)
  from fail
  have "net' (stationID (LastOrigin (config ?a1))) (stationID (LastDest (config ?a1))) = Inl err'"
    by simp
  then have two: "refresh Parse ToLower Format net' now' ?a1 = Some ?a2"
    by (rule refresh_failure)
  show "\<exists>a1 a2.
        refresh Parse ToLower Format net now a = Some a1 \<and>
        journeys a1 = [] \<and> \<not> isLoading a1 \<and> selectedIdx a1 = 0 \<and>
        prevJourneyIDs a1 = prevJourneyIDs a \<and> delayHistory a1 = delayHistory a \<and>
        newHighlight a1 = newHighlight a \<and> config a1 = config a \<and>
        refresh Parse ToLower Format net' now' a1 = Some a2 \<and>
        journeys a2 = [] \<and> \<not> isLoading a2 \<and> selectedIdx a2 = 0 \<and>
        prevJourneyIDs a2 = prevJourneyIDs a \<and> delayHistory a2 = delayHistory a \<and>
        newHighlight a2 = newHighlight a \<and> config a2 = config a"
    by (rule exI [of _ ?a1], rule exI [of _ ?a2]) (simp add: one two)
qed

theorem refresh_failure_clears_witness:
  "netDown (stationID (LastOrigin (config exApp))) (stationID (LastDest (config exApp))) =
     Inl RequestError \<and>
   (\<exists>a1 a2.
      refresh exParse asciiLower exFormat netDown at0840 exApp = Some a1 \<and>
      journeys a1 = [] \<and> \<not> isLoading a1 \<and>
      prevJourneyIDs a1 = prevJourneyIDs exApp \<and>
      refresh exParse asciiLower exFormat netDown at0855 a1 = Some a2 \<and>
      journeys a2 = [] \<and> \<not> isLoading a2)"
proof -
  have down: "netDown (stationID (LastOrigin (config exApp)))
      (stationID (LastDest (config exApp))) = Inl RequestError"
    by (simp add: netDown_def)
  from refresh_failure_clears [of netDown exApp RequestError netDown RequestError
      exParse asciiLower exFormat at0840 at0855] down
  show ?thesis by blast
qed

text \<open>The application shows the bus journey and the network is down: after the refresh
  the published list is empty, not the list that was shown before.\<close>

theorem refresh_failure_counterexample:
  "journeys exApp = [builtBus\<lparr>IsNew := False\<rparr>] \<and>
   map_option journeys (refresh exParse asciiLower exFormat netDown at0840 exApp) = Some [] \<and>
   map_option isLoading (refresh exParse asciiLower exFormat netDown at0840 exApp) = Some False"
  by (simp add: refresh_failure netDown_def) (simp add: exApp_def)

section \<open>The filters field\<close>

text \<open>
  Claim C10. A refresh hands the empty mapping to the builder, whatever the \<open>filters\<close>
  field holds: two applications that differ in that field only publish the same list,
  and after a fetch that succeeds the list is the one built without any filter (with the
  novelty flags set), also under the mapping that \<open>NewApp\<close> stores and under one that
  disables a mode. The mapping that \<open>NewApp\<close> stores enables each of the seven modes.
\<close>

theorem refresh_ignores_filters:
  "map_option journeys (refresh Parse ToLower Format net now (a\<lparr>filters := f\<rparr>)) =
     map_option journeys (refresh Parse ToLower Format net now (a\<lparr>filters := f'\<rparr>)) \<and>
   (net (stationID (LastOrigin (config a))) (stationID (LastDest (config a))) = Inr apiResp \<longrightarrow>
      map_option journeys (refresh Parse ToLower Format net now (a\<lparr>filters := f\<rparr>)) =
        Some (map (\<lambda>j. j\<lparr>IsNew := \<not> lookupBool (prevJourneyIDs a) (identity Format j)\<rparr>)
                (buildJourneys Parse ToLower Mapping.empty apiResp))) \<and>
   list_all (\<lambda>p. Mapping.lookup initialFilters p = Some True)
     [''suburban'', ''subway'', ''tram'', ''bus'', ''ferry'', ''regional'', ''express'']"
proof (intro conjI impI)
  show "map_option journeys (refresh Parse ToLower Format net now (a\<lparr>filters := f\<rparr>)) =
     map_option journeys (refresh Parse ToLower Format net now (a\<lparr>filters := f'\<rparr>))"
    by (simp add: refresh_filters option.map_comp comp_def)
next
  assume "net (stationID (LastOrigin (config a))) (stationID (LastDest (config a))) = Inr apiResp"
  from refresh_success [where net = net and a = a and Parse = Parse and ToLower = ToLower
      and Format = Format and now = now, OF this]
  show "map_option journeys (refresh Parse ToLower Format net now (a\<lparr>filters := f\<rparr>)) =
        Some (map (\<lambda>j. j\<lparr>IsNew := \<not> lookupBool (prevJourneyIDs a) (identity Format j)\<rparr>)
                (buildJourneys Parse ToLower Mapping.empty apiResp))"
    by (auto simp: refresh_filters)
next
  show "list_all (\<lambda>p. Mapping.lookup initialFilters p = Some True)
     [''suburban'', ''subway'', ''tram'', ''bus'', ''ferry'', ''regional'', ''express'']"
    by (simp add: initialFilters_def Mapping.lookup_update')
qed

theorem refresh_ignores_filters_witness:
  "netUp (stationID (LastOrigin (config exApp))) (stationID (LastDest (config exApp))) =
     Inr \<lparr>Journeys = [journeyBus]\<rparr> \<and>
   Mapping.lookup noBus ''bus'' = Some False \<and>
   map_option journeys (refresh exParse asciiLower exFormat netUp at0840
       (exApp\<lparr>filters := noBus\<rparr>)) = Some [builtBus\<lparr>IsNew := False\<rparr>] \<and>
   map_option journeys (refresh exParse asciiLower exFormat netUp at0840
       (exApp\<lparr>filters := initialFilters\<rparr>)) = Some [builtBus\<lparr>IsNew := False\<rparr>]"
proof -
  have up: "netUp (stationID (LastOrigin (config exApp))) (stationID (LastDest (config exApp))) =
      Inr \<lparr>Journeys = [journeyBus]\<rparr>"
    by (simp add: netUp_def)
  have flag: "Mapping.lookup noBus ''bus'' = Some False"
    by (simp add: noBus_def)
  have ident: "identity exFormat builtBus = ''2024-05-01T08:05:00+02:00-142''"
    by (simp add: identity_def exFormat_def example_defs)
  have seen: "lookupBool (prevJourneyIDs exApp) ''2024-05-01T08:05:00+02:00-142''"
    by (simp add: lookupBool_def exApp_def)
  have built: "buildJourneys exParse asciiLower Mapping.empty \<lparr>Journeys = [journeyBus]\<rparr> = [builtBus]"
    using build_bus by (simp add: noFilters_def)
  have marked: "map (\<lambda>j. j\<lparr>IsNew := \<not> lookupBool (prevJourneyIDs exApp) (identity exFormat j)\<rparr>)
      (buildJourneys exParse asciiLower Mapping.empty \<lparr>Journeys = [journeyBus]\<rparr>) =
      [builtBus\<lparr>IsNew := False\<rparr>]"
    by (simp add: built ident seen)
  from refresh_ignores_filters [where Parse = exParse and ToLower = asciiLower
      and Format = exFormat and net = netUp and now = at0840 and a = exApp and f = noBus
      and f' = initialFilters and apiResp = "\<lparr>Journeys = [journeyBus]\<rparr>"] up
  have same: "map_option journeys (refresh exParse asciiLower exFormat netUp at0840
       (exApp\<lparr>filters := noBus\<rparr>)) =
      map_option journeys (refresh exParse asciiLower exFormat netUp at0840
       (exApp\<lparr>filters := initialFilters\<rparr>))"
    and pub: "map_option journeys (refresh exParse asciiLower exFormat netUp at0840
       (exApp\<lparr>filters := noBus\<rparr>)) =
      Some (map (\<lambda>j. j\<lparr>IsNew := \<not> lookupBool (prevJourneyIDs exApp) (identity exFormat j)\<rparr>)
        (buildJourneys exParse asciiLower Mapping.empty \<lparr>Journeys = [journeyBus]\<rparr>))"
    by blast+
  from pub have one: "map_option journeys (refresh exParse asciiLower exFormat netUp at0840
       (exApp\<lparr>filters := noBus\<rparr>)) = Some [builtBus\<lparr>IsNew := False\<rparr>]"
    unfolding marked .
  with same have two: "map_option journeys (refresh exParse asciiLower exFormat netUp at0840
       (exApp\<lparr>filters := initialFilters\<rparr>)) = Some [builtBus\<lparr>IsNew := False\<rparr>]"
    by (rule subst)
  from up flag one two show ?thesis by blast
qed

end
